theory Spec2Isabelle
  imports Complex_Main "HOL-Library.Sublist"
begin

section \<open>Python's decimal arithmetic, as core.py uses it\<close>

text \<open>
  core.py computes with \<^verbatim>\<open>decimal.Decimal\<close> under the default context, which it
  sets once more at import time (\<^verbatim>\<open>getcontext().prec = 28\<close>): precision 28, rounding
  ROUND_HALF_EVEN, Emax 999999, Emin -999999, clamp 0, and the traps InvalidOperation,
  DivisionByZero and Overflow enabled. The operations below follow the reference
  implementation of the standard library (Lib/\_pydecimal.py), function by function.

  A finite decimal is sign, coefficient and exponent, with the sign \<open>True\<close> for
  negative numbers; its value is \<open>\<plusminus> coefficient * 10 ^ exponent\<close>. The coefficient is
  Python's digit string \<^verbatim>\<open>_int\<close> read as a number, so a digit-string operation appears
  here as the arithmetic it performs (\<^verbatim>\<open>_int[:k]\<close> is a division by a power of ten).
  The sign and the payload of a NaN are not modelled; no operation of core.py reads them.
\<close>

datatype decimal = Dec bool nat int | Infinity bool | NaN | sNaN

datatype error =
    ValueError string
  | InvalidOperation
  | DivisionByZero
  | Overflow
  | OverflowError
  | FileNotFoundError
  | NotADirectoryError

definition prec :: nat where "prec = 28"
definition Emax :: int where "Emax = 999999"
definition Emin :: int where "Emin = - 999999"
definition Etiny :: int where "Etiny = Emin - int prec + 1"
definition Etop :: int where "Etop = Emax - int prec + 1"

text \<open>\<^verbatim>\<open>len(self._int)\<close>: the number of decimal digits, one for zero.\<close>

fun ndigits :: "nat \<Rightarrow> nat" where
  "ndigits n = (if n < 10 then 1 else Suc (ndigits (n div 10)))"

declare ndigits.simps [simp del]

text \<open>
  Dropping the last \<open>k\<close> digits of a coefficient under ROUND\_HALF\_EVEN
  (\<^verbatim>\<open>_round_half_even\<close> followed by the increment its callers perform): the kept digits
  are \<open>c div 10 ^ k\<close>, and they are incremented when the dropped digits are more than
  half a unit, or exactly half a unit with an odd last kept digit.
\<close>

definition round_half_even :: "nat \<Rightarrow> nat \<Rightarrow> nat" where
  "round_half_even c k =
     (let q = c div 10 ^ k; r = c mod 10 ^ k
      in if 10 ^ k < 2 * r \<or> (2 * r = 10 ^ k \<and> odd q) then q + 1 else q)"

text \<open>
  \<^verbatim>\<open>Decimal._fix\<close>: round to the context's precision and check the exponent. Only
  Overflow is trapped; Underflow, Subnormal, Inexact, Rounded and Clamped set a flag and
  go on.
\<close>

definition dec_fix :: "decimal \<Rightarrow> error + decimal" where
  "dec_fix d =
     (case d of
        Dec s c e \<Rightarrow>
          if c = 0 then Inr (Dec s 0 (min (max e Etiny) Emax))
          else
            let exp_min0 = int (ndigits c) + e - int prec in
            if Etop < exp_min0 then Inl Overflow
            else
              let exp_min = max exp_min0 Etiny in
              if e < exp_min then
                let coeff = round_half_even c (nat (exp_min - e));
                    carry = (prec < ndigits coeff);
                    coeff' = (if carry then coeff div 10 else coeff);
                    exp_min' = (if carry then exp_min + 1 else exp_min)
                in if Etop < exp_min' then Inl Overflow else Inr (Dec s coeff' exp_min')
              else Inr (Dec s c e)
      | _ \<Rightarrow> Inr d)"

text \<open>\<^verbatim>\<open>Decimal._rescale(exp, ROUND_HALF_EVEN)\<close>: the same value at the exponent \<open>ex\<close>.\<close>

definition rescale :: "decimal \<Rightarrow> int \<Rightarrow> decimal" where
  "rescale d ex =
     (case d of
        Dec s c e \<Rightarrow>
          if c = 0 then Dec s 0 ex
          else if ex \<le> e then Dec s (c * 10 ^ nat (e - ex)) ex
          else Dec s (round_half_even c (nat (ex - e))) ex
      | _ \<Rightarrow> d)"

text \<open>\<^verbatim>\<open>Decimal(n)\<close> for a Python int: exact, whatever the context.\<close>

definition Decimal :: "int \<Rightarrow> decimal" where
  "Decimal n = Dec (n < 0) (nat \<bar>n\<bar>) 0"

text \<open>
  \<^verbatim>\<open>_check_nans\<close>: a signalling NaN among the operands raises InvalidOperation, a quiet
  one is the result.
\<close>

definition check_nans :: "decimal \<Rightarrow> decimal \<Rightarrow> (error + decimal) option" where
  "check_nans a b =
     (if a = sNaN \<or> b = sNaN then Some (Inl InvalidOperation)
      else if a = NaN \<or> b = NaN then Some (Inr NaN)
      else None)"

text \<open>\<^verbatim>\<open>Decimal.__mul__\<close>.\<close>

definition dec_mul :: "decimal \<Rightarrow> decimal \<Rightarrow> error + decimal" where
  "dec_mul a b =
     (case check_nans a b of
        Some r \<Rightarrow> r
      | None \<Rightarrow>
          (case (a, b) of
             (Infinity s1, Infinity s2) \<Rightarrow> Inr (Infinity (s1 \<noteq> s2))
           | (Infinity s1, Dec s2 c2 e2) \<Rightarrow>
               if c2 = 0 then Inl InvalidOperation else Inr (Infinity (s1 \<noteq> s2))
           | (Dec s1 c1 e1, Infinity s2) \<Rightarrow>
               if c1 = 0 then Inl InvalidOperation else Inr (Infinity (s1 \<noteq> s2))
           | (Dec s1 c1 e1, Dec s2 c2 e2) \<Rightarrow> dec_fix (Dec (s1 \<noteq> s2) (c1 * c2) (e1 + e2))
           | _ \<Rightarrow> Inr NaN))"

text \<open>
  \<^verbatim>\<open>_normalize(op1, op2, prec)\<close> on the coefficients and exponents of two non-zero
  operands: the operand with the larger exponent is padded with zeros down to the other
  exponent; an operand too small to reach the rounded digits is first replaced by
  \<open>1 * 10 ^ exp\<close>. The result is the common exponent with the two coefficients.
\<close>

definition normalize_ops :: "nat \<Rightarrow> int \<Rightarrow> nat \<Rightarrow> int \<Rightarrow> nat \<times> nat \<times> int" where
  "normalize_ops c1 e1 c2 e2 =
     (if e1 < e2 then
        (let ex = e2 + min (- 1) (int (ndigits c2) - int prec - 2);
             small = (int (ndigits c1) + e1 - 1 < ex);
             oc = (if small then 1 else c1);
             oe = (if small then ex else e1)
         in (oc, c2 * 10 ^ nat (e2 - oe), oe))
      else
        (let ex = e1 + min (- 1) (int (ndigits c1) - int prec - 2);
             small = (int (ndigits c2) + e2 - 1 < ex);
             oc = (if small then 1 else c2);
             oe = (if small then ex else e2)
         in (c1 * 10 ^ nat (e1 - oe), oc, oe)))"

text \<open>\<^verbatim>\<open>Decimal.__add__\<close>; the rounding is never ROUND\_FLOOR, so \<^verbatim>\<open>negativezero\<close> is 0.\<close>

definition dec_add :: "decimal \<Rightarrow> decimal \<Rightarrow> error + decimal" where
  "dec_add a b =
     (case check_nans a b of
        Some r \<Rightarrow> r
      | None \<Rightarrow>
          (case (a, b) of
             (Infinity s1, Infinity s2) \<Rightarrow>
               if s1 \<noteq> s2 then Inl InvalidOperation else Inr (Infinity s1)
           | (Infinity s1, _) \<Rightarrow> Inr (Infinity s1)
           | (_, Infinity s2) \<Rightarrow> Inr (Infinity s2)
           | (Dec s1 c1 e1, Dec s2 c2 e2) \<Rightarrow>
               let ex = min e1 e2 in
               if c1 = 0 \<and> c2 = 0 then dec_fix (Dec (s1 \<and> s2) 0 ex)
               else if c1 = 0 then
                 dec_fix (rescale (Dec s2 c2 e2) (max ex (e2 - int prec - 1)))
               else if c2 = 0 then
                 dec_fix (rescale (Dec s1 c1 e1) (max ex (e1 - int prec - 1)))
               else
                 (case normalize_ops c1 e1 c2 e2 of
                    (i1, i2, en) \<Rightarrow>
                      if s1 \<noteq> s2 then
                        (if i1 = i2 then dec_fix (Dec False 0 ex)
                         else if i1 < i2 then dec_fix (Dec s2 (i2 - i1) en)
                         else dec_fix (Dec s1 (i1 - i2) en))
                      else dec_fix (Dec s1 (i1 + i2) en))
           | _ \<Rightarrow> Inr NaN))"

text \<open>\<^verbatim>\<open>copy_negate\<close> and \<^verbatim>\<open>Decimal.__sub__\<close>.\<close>

definition copy_negate :: "decimal \<Rightarrow> decimal" where
  "copy_negate d =
     (case d of Dec s c e \<Rightarrow> Dec (\<not> s) c e | Infinity s \<Rightarrow> Infinity (\<not> s) | _ \<Rightarrow> d)"

definition dec_sub :: "decimal \<Rightarrow> decimal \<Rightarrow> error + decimal" where
  "dec_sub a b =
     (case check_nans a b of
        Some r \<Rightarrow> r
      | None \<Rightarrow> dec_add a (copy_negate b))"

text \<open>
  The loop of \<^verbatim>\<open>__truediv__\<close> for an exact quotient: trailing zeros are removed while
  the exponent is below the ideal one.
\<close>

function strip_zeros :: "nat \<Rightarrow> int \<Rightarrow> int \<Rightarrow> nat \<times> int" where
  "strip_zeros coeff ex ideal_exp =
     (if ex < ideal_exp \<and> coeff mod 10 = 0
      then strip_zeros (coeff div 10) (ex + 1) ideal_exp
      else (coeff, ex))"
  by pat_completeness auto
termination
  by (relation "measure (\<lambda>(coeff, ex, ideal_exp). nat (ideal_exp - ex))") auto

declare strip_zeros.simps [simp del]

text \<open>\<^verbatim>\<open>Decimal.__truediv__\<close>.\<close>

definition dec_truediv :: "decimal \<Rightarrow> decimal \<Rightarrow> error + decimal" where
  "dec_truediv a b =
     (case check_nans a b of
        Some r \<Rightarrow> r
      | None \<Rightarrow>
          (case (a, b) of
             (Infinity s1, Infinity s2) \<Rightarrow> Inl InvalidOperation
           | (Infinity s1, Dec s2 c2 e2) \<Rightarrow> Inr (Infinity (s1 \<noteq> s2))
           | (Dec s1 c1 e1, Infinity s2) \<Rightarrow> Inr (Dec (s1 \<noteq> s2) 0 Etiny)
           | (Dec s1 c1 e1, Dec s2 c2 e2) \<Rightarrow>
               if c2 = 0 then (if c1 = 0 then Inl InvalidOperation else Inl DivisionByZero)
               else if c1 = 0 then dec_fix (Dec (s1 \<noteq> s2) 0 (e1 - e2))
               else
                 let shift = int (ndigits c2) - int (ndigits c1) + int prec + 1;
                     ex = e1 - e2 - shift;
                     num = (if 0 \<le> shift then c1 * 10 ^ nat shift else c1);
                     den = (if 0 \<le> shift then c2 else c2 * 10 ^ nat (- shift));
                     coeff = num div den;
                     remainder = num mod den
                 in if remainder \<noteq> 0
                    then dec_fix (Dec (s1 \<noteq> s2) (if coeff mod 5 = 0 then coeff + 1 else coeff) ex)
                    else (case strip_zeros coeff ex (e1 - e2) of
                            (coeff', ex') \<Rightarrow> dec_fix (Dec (s1 \<noteq> s2) coeff' ex'))
           | _ \<Rightarrow> Inr NaN))"

text \<open>
  \<^verbatim>\<open>self.adjusted()\<close>, and \<^verbatim>\<open>Decimal.quantize(exp, rounding=ROUND_HALF_EVEN)\<close> for a
  finite second operand, of which only the exponent \<open>ex\<close> is read.
\<close>

definition adjusted :: "nat \<Rightarrow> int \<Rightarrow> int" where
  "adjusted c e = e + int (ndigits c) - 1"

definition quantize :: "decimal \<Rightarrow> int \<Rightarrow> error + decimal" where
  "quantize d ex =
     (case d of
        sNaN \<Rightarrow> Inl InvalidOperation
      | NaN \<Rightarrow> Inr NaN
      | Infinity s \<Rightarrow> Inl InvalidOperation
      | Dec s c e \<Rightarrow>
          if \<not> (Etiny \<le> ex \<and> ex \<le> Emax) then Inl InvalidOperation
          else if c = 0 then dec_fix (Dec s 0 ex)
          else if Emax < adjusted c e then Inl InvalidOperation
          else if int prec < adjusted c e - ex + 1 then Inl InvalidOperation
          else
            (case rescale (Dec s c e) ex of
               Dec s' c' e' \<Rightarrow>
                 if Emax < adjusted c' e' then Inl InvalidOperation
                 else if prec < ndigits c' then Inl InvalidOperation
                 else dec_fix (Dec s' c' e')
             | r \<Rightarrow> Inr r))"

text \<open>
  The comparison \<^verbatim>\<open>self <= other\<close>: a NaN on either side raises InvalidOperation
  (\<^verbatim>\<open>_compare_check_nans\<close>); otherwise \<^verbatim>\<open>_cmp\<close> compares the numbers, here as scaled
  integers.
\<close>

definition signed_coeff :: "bool \<Rightarrow> nat \<Rightarrow> int" where
  "signed_coeff s c = (if s then - int c else int c)"

definition dec_le :: "decimal \<Rightarrow> decimal \<Rightarrow> error + bool" where
  "dec_le a b =
     (if a = NaN \<or> a = sNaN \<or> b = NaN \<or> b = sNaN then Inl InvalidOperation
      else
        (case (a, b) of
           (Infinity s1, Infinity s2) \<Rightarrow> Inr (s1 \<or> \<not> s2)
         | (Infinity s1, _) \<Rightarrow> Inr s1
         | (_, Infinity s2) \<Rightarrow> Inr (\<not> s2)
         | (Dec s1 c1 e1, Dec s2 c2 e2) \<Rightarrow>
             let m = min e1 e2
             in Inr (signed_coeff s1 c1 * 10 ^ nat (e1 - m) \<le> signed_coeff s2 c2 * 10 ^ nat (e2 - m))
         | _ \<Rightarrow> Inl InvalidOperation))"

text \<open>\<^verbatim>\<open>int(d)\<close>: truncation towards zero.\<close>

definition dec_int :: "decimal \<Rightarrow> error + int" where
  "dec_int d =
     (case d of
        Dec s c e \<Rightarrow>
          if 0 \<le> e then Inr (signed_coeff s c * 10 ^ nat e)
          else Inr (signed_coeff s (c div 10 ^ nat (- e)))
      | Infinity s \<Rightarrow> Inl OverflowError
      | _ \<Rightarrow> Inl (ValueError ''Cannot convert NaN to integer''))"

section \<open>The calculation engine (core.py)\<close>

text \<open>
  A raised exception is the left summand of the result; \<open>ebind\<close> passes the first one
  on, as the Python statements after a raise are not run.
\<close>

definition ebind :: "error + 'a \<Rightarrow> ('a \<Rightarrow> error + 'b) \<Rightarrow> error + 'b" where
  "ebind m f = (case m of Inl e \<Rightarrow> Inl e | Inr v \<Rightarrow> f v)"

text \<open>A calendar date, as year, month and day.\<close>

type_synonym Date = "nat \<times> nat \<times> nat"

record CalculationInput =
  invoice_no :: string
  client_no :: int
  client_name :: string
  total_nuts :: int
  price_each_rupees :: decimal
  date :: Date
  labor_percent :: decimal

record CalculationResult =
  invoice_no :: string
  client_no :: int
  client_name :: string
  date :: Date
  total_nuts :: int
  price_each_rupees :: decimal
  labor_percent :: decimal
  waste_nuts :: int
  remaining_nuts :: int
  gross_amount :: decimal
  tax_amount :: decimal
  labor_charges :: decimal
  final_amount :: decimal

text \<open>
  \<^verbatim>\<open>_round_waste_to_nearest_integer_half_even\<close>: \<^verbatim>\<open>Decimal("0.022")\<close> is
  \<open>Dec False 22 (- 3)\<close>, and \<^verbatim>\<open>quantize(Decimal("1"))\<close> asks for the exponent 0.
\<close>

definition round_waste_to_nearest_integer_half_even :: "int \<Rightarrow> error + int" where
  "round_waste_to_nearest_integer_half_even nuts =
     ebind (dec_mul (Decimal nuts) (Dec False 22 (- 3))) (\<lambda>waste_raw.
     ebind (quantize waste_raw 0) (\<lambda>waste_quantized.
     dec_int waste_quantized))"

text \<open>\<^verbatim>\<open>_quantize_money\<close>: \<^verbatim>\<open>Decimal("0.01")\<close> has the exponent -2.\<close>

definition quantize_money :: "decimal \<Rightarrow> error + decimal" where
  "quantize_money v = quantize v (- 2)"

text \<open>
  \<^verbatim>\<open>calculate\<close>, statement by statement; the four checks come first, in the order of
  the source, and the comparison of the price with zero can itself raise.
\<close>

definition calculate :: "CalculationInput \<Rightarrow> error + CalculationResult" where
  "calculate input_data =
     (if CalculationInput.total_nuts input_data \<le> 0
      then Inl (ValueError ''Total coconuts must be a positive integer'')
      else
     ebind (dec_le (CalculationInput.price_each_rupees input_data) (Dec False 0 0)) (\<lambda>not_positive.
      if not_positive
      then Inl (ValueError ''Price per coconut must be a positive number'')
      else if CalculationInput.invoice_no input_data = []
      then Inl (ValueError ''V.No. (invoice number) must be a non-empty string'')
      else if CalculationInput.client_no input_data < 0
      then Inl (ValueError ''Client number must be >= 0'')
      else
     ebind (round_waste_to_nearest_integer_half_even (CalculationInput.total_nuts input_data))
       (\<lambda>waste.
     let remaining = CalculationInput.total_nuts input_data - waste in
     ebind (dec_mul (Decimal remaining) (CalculationInput.price_each_rupees input_data)) (\<lambda>gross.
     ebind (dec_mul gross (Dec False 1 (- 2))) (\<lambda>tax.
     ebind (dec_truediv (CalculationInput.labor_percent input_data) (Dec False 100 0)) (\<lambda>rate.
     ebind (dec_mul (Decimal (CalculationInput.total_nuts input_data)) rate) (\<lambda>labor.
     ebind (dec_sub gross tax) (\<lambda>gross_less_tax.
     ebind (dec_sub gross_less_tax labor) (\<lambda>final.
     ebind (quantize_money gross) (\<lambda>gross_q.
     ebind (quantize_money tax) (\<lambda>tax_q.
     ebind (quantize_money labor) (\<lambda>labor_q.
     ebind (quantize_money final) (\<lambda>final_q.
     ebind (quantize_money (CalculationInput.price_each_rupees input_data)) (\<lambda>price_q.
     Inr \<lparr> CalculationResult.invoice_no = CalculationInput.invoice_no input_data,
           client_no = CalculationInput.client_no input_data,
           client_name = CalculationInput.client_name input_data,
           date = CalculationInput.date input_data,
           total_nuts = CalculationInput.total_nuts input_data,
           price_each_rupees = price_q,
           labor_percent = CalculationInput.labor_percent input_data,
           waste_nuts = waste,
           remaining_nuts = remaining,
           gross_amount = gross_q,
           tax_amount = tax_q,
           labor_charges = labor_q,
           final_amount = final_q \<rparr>))))))))))))))"
section \<open>Strings as Python handles them\<close>

text \<open>
  A string is a list of code points below 256. \<^verbatim>\<open>str.strip\<close> removes the characters for
  which \<^verbatim>\<open>str.isspace\<close> holds: below 256 these are the code points 9 to 13, 28 to 32, 133
  and 160. \<^verbatim>\<open>str.lower\<close> adds 32 to the code points 65 to 90, 192 to 214 and 216 to 222,
  which sets bit 5 of the character, clear in these ranges.
\<close>

definition isspace :: "char \<Rightarrow> bool" where
  "isspace c = (of_char c \<in> {9, 10, 11, 12, 13, 28, 29, 30, 31, 32, 133, 160 :: nat})"

definition strip :: "string \<Rightarrow> string" where
  "strip s = rev (dropWhile isspace (rev (dropWhile isspace s)))"

definition lower_char :: "char \<Rightarrow> char" where
  "lower_char c =
     (let n = of_char c :: nat
      in if (65 \<le> n \<and> n \<le> 90) \<or> (192 \<le> n \<and> n \<le> 214) \<or> (216 \<le> n \<and> n \<le> 222)
         then (case c of Char b0 b1 b2 b3 b4 b5 b6 b7 \<Rightarrow> Char b0 b1 b2 b3 b4 True b6 b7)
         else c)"

definition lower :: "string \<Rightarrow> string" where
  "lower s = map lower_char s"

section \<open>The ledger (persistence.py)\<close>

text \<open>
  A record of the ledger as \<^verbatim>\<open>csv.DictReader\<close> yields it: a dictionary from the column
  names to the fields, absent where the line was short (Python's \<^verbatim>\<open>None\<close>).
  \<^verbatim>\<open>get_or r k1 k2 d\<close> is the expression \<^verbatim>\<open>r.get(k1) or r.get(k2) or d\<close>.
\<close>

type_synonym row = "string \<rightharpoonup> string"

definition truthy :: "string option \<Rightarrow> bool" where
  "truthy x = (case x of Some v \<Rightarrow> v \<noteq> [] | None \<Rightarrow> False)"

definition get_or :: "row \<Rightarrow> string \<Rightarrow> string \<Rightarrow> string \<Rightarrow> string" where
  "get_or r k1 k2 d =
     (if truthy (r k1) then the (r k1) else if truthy (r k2) then the (r k2) else d)"

text \<open>The key and the loop of \<^verbatim>\<open>deduplicate_history\<close>.\<close>

type_synonym key = "string \<times> string \<times> string"

definition row_key :: "row \<Rightarrow> key" where
  "row_key r =
     (let name = lower (strip (get_or r ''client_name'' ''Name'' ''''));
          vno = strip (get_or r ''v_no'' ''V.No.'' '''');
          amt = strip (get_or r ''final_amount'' ''Amount'' '''')
      in (name, vno, amt))"

fun dedup_loop :: "key set \<Rightarrow> row list \<Rightarrow> nat \<Rightarrow> row list \<Rightarrow> row list \<times> nat" where
  "dedup_loop seen_keys unique_rows removed [] = (unique_rows, removed)"
| "dedup_loop seen_keys unique_rows removed (r # rs) =
     (let key = row_key r
      in if key \<in> seen_keys then dedup_loop seen_keys unique_rows (removed + 1) rs
         else dedup_loop (insert key seen_keys) (unique_rows @ [r]) removed rs)"

text \<open>
  The files of the data directory: the ledger \<^verbatim>\<open>history.csv\<close>, absent or a header with its
  records, and the two directories of saved texts, each a dictionary from file names to
  contents.
\<close>

record csv_file =
  fieldnames :: "string list"
  records :: "row list"

record files =
  HISTORY_CSV :: "csv_file option"
  SLIPS_DIR :: "string \<rightharpoonup> string"
  RANGE_DIR :: "string \<rightharpoonup> string"

definition history_headers :: "string list" where
  "history_headers =
     [''date'', ''v_no'', ''client_no'', ''client_name'', ''total_nuts'', ''waste'', ''remaining'',
      ''price_each'', ''gross'', ''tax'', ''labor'', ''final_amount'', ''created_at'', ''party_name'']"

definition ensure_files_exist :: "files \<Rightarrow> files" where
  "ensure_files_exist fs =
     (case HISTORY_CSV fs of
        None \<Rightarrow> fs \<lparr> HISTORY_CSV := Some \<lparr> fieldnames = history_headers, records = [] \<rparr> \<rparr>
      | Some f \<Rightarrow> fs)"

text \<open>
  \<^verbatim>\<open>csv.DictWriter\<close> with \<^verbatim>\<open>extrasaction="ignore"\<close> writes the columns of the header only, and
  an empty field for a column the record lacks; that is the record read back.
\<close>

definition setdefault :: "string \<Rightarrow> string \<Rightarrow> row \<Rightarrow> row" where
  "setdefault k v r = (case r k of None \<Rightarrow> r(k \<mapsto> v) | Some w \<Rightarrow> r)"

definition writerow :: "string list \<Rightarrow> row \<Rightarrow> row" where
  "writerow header r =
     (\<lambda>k. if k \<in> set header then Some (case r k of Some v \<Rightarrow> v | None \<Rightarrow> '''') else None)"

definition deduplicate_history :: "files \<Rightarrow> files \<times> nat" where
  "deduplicate_history fs0 =
     (let fs = ensure_files_exist fs0
      in case HISTORY_CSV fs of
           None \<Rightarrow> (fs, 0)
         | Some f \<Rightarrow>
             if records f = [] then (fs, 0)
             else
               let (header, rows) =
                     (if ''party_name'' \<notin> set (fieldnames f)
                      then (fieldnames f @ [''party_name''],
                            map (setdefault ''party_name'' '''') (records f))
                      else (fieldnames f, records f));
                   (unique_rows, removed) = dedup_loop {} [] 0 rows
               in (fs \<lparr> HISTORY_CSV :=
                         Some \<lparr> fieldnames = header, records = map (writerow header) unique_rows \<rparr> \<rparr>,
                   removed))"

section \<open>Saving slips and range reports (persistence.py)\<close>

text \<open>
  \<^verbatim>\<open>str.isalnum\<close> on the code points below 256, \<^verbatim>\<open>str.split\<close> without arguments (the
  words between runs of white space), \<^verbatim>\<open>str\<close> of an integer, and \<^verbatim>\<open>strftime("%Y%m%d")\<close>
  with the year as glibc prints it, without padding.
\<close>

definition isalnum :: "char \<Rightarrow> bool" where
  "isalnum c =
     (let n = of_char c :: nat
      in (48 \<le> n \<and> n \<le> 57) \<or> (65 \<le> n \<and> n \<le> 90) \<or> (97 \<le> n \<and> n \<le> 122)
         \<or> n \<in> {170, 178, 179, 181, 185, 186, 188, 189, 190}
         \<or> (192 \<le> n \<and> n \<le> 214) \<or> (216 \<le> n \<and> n \<le> 246) \<or> 248 \<le> n)"

fun split_acc :: "string \<Rightarrow> string \<Rightarrow> string list" where
  "split_acc cur [] = (if cur = [] then [] else [cur])"
| "split_acc cur (c # s) =
     (if isspace c then (if cur = [] then split_acc [] s else cur # split_acc [] s)
      else split_acc (cur @ [c]) s)"

definition str_split :: "string \<Rightarrow> string list" where
  "str_split s = split_acc [] s"

definition digit_char :: "nat \<Rightarrow> char" where
  "digit_char d = ''0123456789'' ! d"

function str_nat :: "nat \<Rightarrow> string" where
  "str_nat n = (if n < 10 then [digit_char n] else str_nat (n div 10) @ [digit_char (n mod 10)])"
  by pat_completeness auto
termination by (relation "measure id") auto

declare str_nat.simps [simp del]

definition str_int :: "int \<Rightarrow> string" where
  "str_int i = (if i < 0 then ''-'' @ str_nat (nat (- i)) else str_nat (nat i))"

definition pad2 :: "nat \<Rightarrow> string" where
  "pad2 n = (if n < 10 then ''0'' @ str_nat n else str_nat n)"

definition strftime_Ymd :: "Date \<Rightarrow> string" where
  "strftime_Ymd dt = (case dt of (y, m, d) \<Rightarrow> str_nat y @ pad2 m @ pad2 d)"

definition shorten_client_name :: "string \<Rightarrow> string" where
  "shorten_client_name name =
     (let parts = filter (\<lambda>p. p \<noteq> []) (str_split name)
      in if parts = [] then ''Client''
         else if length parts = 1 then take 16 (hd parts)
         else take 24 (hd parts @ last parts))"

definition slip_filename :: "CalculationResult \<Rightarrow> string" where
  "slip_filename result =
     (let ymd = strftime_Ymd (CalculationResult.date result);
          short = filter (\<lambda>c. c \<noteq> CHR '' '') (shorten_client_name (CalculationResult.client_name result))
      in ''VNo'' @ CalculationResult.invoice_no result @ ''_'' @ ymd @ ''_'' @ short @ ''.txt'')"

text \<open>
  A directory of saved texts holds plain files only: nothing in the application creates a
  directory below it. A name is joined to the directory by \<^verbatim>\<open>SLIPS_DIR / name\<close>; all names
  here start with a letter or a digit and end in \<^verbatim>\<open>.txt\<close>, so a name with a separator
  denotes a path through a subdirectory named by its first component, which does not
  exist. \<^verbatim>\<open>Path.exists\<close> is then false (as it is for a name with a null character), and
  \<^verbatim>\<open>Path.write_text\<close> raises \<^verbatim>\<open>FileNotFoundError\<close>, or \<^verbatim>\<open>NotADirectoryError\<close> when the
  first component names a file. The limit of the platform on the length of a name is left
  out. The functions return the name of the file in its directory for the path.
\<close>

definition path_exists :: "(string \<rightharpoonup> string) \<Rightarrow> string \<Rightarrow> bool" where
  "path_exists dir name = (CHR 0x00 \<notin> set name \<and> CHR ''/'' \<notin> set name \<and> dir name \<noteq> None)"

definition write_text :: "(string \<rightharpoonup> string) \<Rightarrow> string \<Rightarrow> string \<Rightarrow> error + (string \<rightharpoonup> string)" where
  "write_text dir name content =
     (if CHR 0x00 \<in> set name then Inl (ValueError ''embedded null byte'')
      else if CHR ''/'' \<in> set name
      then (if dir (takeWhile (\<lambda>c. c \<noteq> CHR ''/'') name) \<noteq> None then Inl NotADirectoryError
            else Inl FileNotFoundError)
      else Inr (dir(name \<mapsto> content)))"

definition save_slip_text_if_new ::
  "files \<Rightarrow> CalculationResult \<Rightarrow> string \<Rightarrow> error + (files \<times> string \<times> bool)" where
  "save_slip_text_if_new fs0 result content =
     (let fs = ensure_files_exist fs0;
          path = slip_filename result
      in if path_exists (SLIPS_DIR fs) path then Inr (fs, path, False)
         else ebind (write_text (SLIPS_DIR fs) path content)
                (\<lambda>d. Inr (fs \<lparr> SLIPS_DIR := d \<rparr>, path, True)))"

text \<open>
  \<^verbatim>\<open>"__" in safe\<close>, \<^verbatim>\<open>safe.replace("__", "_")\<close>, which replaces the occurrences from left to
  right without overlap, the loop that repeats it, and \<^verbatim>\<open>str.strip(chars)\<close>.
\<close>

fun has_uu :: "string \<Rightarrow> bool" where
  "has_uu (a # b # s) = ((a = CHR ''_'' \<and> b = CHR ''_'') \<or> has_uu (b # s))"
| "has_uu s = False"

fun replace_uu :: "string \<Rightarrow> string" where
  "replace_uu (a # b # s) =
     (if a = CHR ''_'' \<and> b = CHR ''_'' then CHR ''_'' # replace_uu s else a # replace_uu (b # s))"
| "replace_uu s = s"

function collapse_uu :: "string \<Rightarrow> string" where
  "collapse_uu safe = (if has_uu safe then collapse_uu (replace_uu safe) else safe)"
  by pat_completeness auto
termination
proof (relation "measure length")
  show "wf (measure length)" by simp
next
  fix safe :: string
  assume h: "has_uu safe"
  have le: "length (replace_uu s) \<le> length s" for s
    by (induction s rule: replace_uu.induct) auto
  have "has_uu s \<Longrightarrow> length (replace_uu s) < length s" for s
  proof (induction s rule: replace_uu.induct)
    case (1 a b s)
    show ?case
    proof (cases "a = CHR ''_'' \<and> b = CHR ''_''")
      case True
      then show ?thesis using le [of s] by simp
    next
      case False
      then show ?thesis using 1 by auto
    qed
  qed simp_all
  with h show "(replace_uu safe, safe) \<in> measure length" by simp
qed

declare collapse_uu.simps [simp del]

definition strip_chars :: "string \<Rightarrow> string \<Rightarrow> string" where
  "strip_chars cs s =
     rev (dropWhile (\<lambda>c. c \<in> set cs) (rev (dropWhile (\<lambda>c. c \<in> set cs) s)))"

definition sanitize_filename_component :: "string \<Rightarrow> string" where
  "sanitize_filename_component text =
     (let safe = map (\<lambda>ch. if isalnum ch \<or> ch \<in> {CHR ''-'', CHR ''_''} then ch else CHR ''_'')
                     (strip text);
          safe = collapse_uu safe;
          r = strip_chars ''._'' safe
      in if r = [] then ''NA'' else r)"

definition range_report_path :: "string \<Rightarrow> int \<Rightarrow> int \<Rightarrow> Date \<Rightarrow> string" where
  "range_report_path party_name from_vno to_vno on_date =
     (let party_slug = sanitize_filename_component party_name;
          date_tag = strftime_Ymd on_date
      in date_tag @ ''_V'' @ str_int from_vno @ ''-'' @ str_int to_vno @ ''_'' @ party_slug @ ''.txt'')"

text \<open>
  \<^verbatim>\<open>save_range_report_if_new\<close>; the text of \<^verbatim>\<open>datetime.utcnow().isoformat(...)\<close> is the
  parameter \<open>utcnow\<close>.
\<close>

definition save_range_report_if_new ::
  "files \<Rightarrow> string \<Rightarrow> int \<Rightarrow> int \<Rightarrow> string \<Rightarrow> Date \<Rightarrow> string \<Rightarrow> error + (files \<times> string \<times> bool)" where
  "save_range_report_if_new fs0 party_name from_vno to_vno report_text on_date utcnow =
     (let fs = ensure_files_exist fs0;
          path = range_report_path party_name from_vno to_vno on_date
      in if path_exists (RANGE_DIR fs) path then Inr (fs, path, False)
         else
           let header = ''Party: '' @ party_name @ [CHR 0x0A]
                        @ ''Range: '' @ str_int from_vno @ ''..'' @ str_int to_vno @ [CHR 0x0A]
                        @ ''Saved At (UTC): '' @ utcnow @ [CHR 0x0A, CHR 0x0A]
           in ebind (write_text (RANGE_DIR fs) path (header @ report_text))
                (\<lambda>d. Inr (fs \<lparr> RANGE_DIR := d \<rparr>, path, True)))"

section \<open>Python's integers and floats from text\<close>

text \<open>
  \<^verbatim>\<open>int(s)\<close> for a string: white space around the number is dropped (below 256 the code
  points 9 to 13, 32, 133 and 160), then an optional sign and decimal digits, single
  underscores allowed between digits; more than 4300 digits raise \<^verbatim>\<open>ValueError\<close>.
  \<^verbatim>\<open>take_digits\<close> reads such a run of digits and returns its value, the number of digits
  and the rest of the string.
\<close>

definition is_digit :: "char \<Rightarrow> bool" where
  "is_digit c = (48 \<le> (of_char c :: nat) \<and> (of_char c :: nat) \<le> 57)"

definition digit_value :: "char \<Rightarrow> nat" where
  "digit_value c = of_char c - 48"

definition number_space :: "char \<Rightarrow> bool" where
  "number_space c = (of_char c \<in> {9, 10, 11, 12, 13, 32, 133, 160 :: nat})"

definition strip_number :: "string \<Rightarrow> string" where
  "strip_number s = rev (dropWhile number_space (rev (dropWhile number_space s)))"

fun take_digits_acc :: "nat \<Rightarrow> nat \<Rightarrow> string \<Rightarrow> (nat \<times> nat \<times> string) option" where
  "take_digits_acc v n [] = Some (v, n, [])"
| "take_digits_acc v n [c] =
     (if is_digit c then Some (10 * v + digit_value c, n + 1, [])
      else if c = CHR ''_'' then None
      else Some (v, n, [c]))"
| "take_digits_acc v n (c # d # s) =
     (if is_digit c then take_digits_acc (10 * v + digit_value c) (n + 1) (d # s)
      else if c = CHR ''_''
      then (if is_digit d then take_digits_acc (10 * v + digit_value d) (n + 1) s else None)
      else Some (v, n, c # d # s))"

definition take_digits :: "string \<Rightarrow> (nat \<times> nat \<times> string) option" where
  "take_digits s =
     (case s of
        [] \<Rightarrow> None
      | c # r \<Rightarrow> if is_digit c then take_digits_acc (digit_value c) 1 r else None)"

definition take_sign :: "string \<Rightarrow> bool \<times> string" where
  "take_sign s =
     (case s of
        [] \<Rightarrow> (False, [])
      | c # r \<Rightarrow> if c = CHR ''-'' then (True, r) else if c = CHR ''+'' then (False, r) else (False, s))"

definition py_int :: "string \<Rightarrow> error + int" where
  "py_int s =
     (case take_sign (strip_number s) of
        (neg, body) \<Rightarrow>
          (case take_digits body of
             Some (v, n, []) \<Rightarrow>
               if 4300 < n
               then Inl (ValueError ''Exceeds the limit (4300 digits) for integer string conversion'')
               else Inr (if neg then - int v else int v)
           | _ \<Rightarrow> Inl (ValueError ''invalid literal for int() with base 10'')))"

text \<open>
  A Python float is an IEEE 754 binary64 number: \<open>Fin s m q\<close> is \<open>(-1)^s * m * 2^q\<close>, with the
  sign kept for zero. \<^verbatim>\<open>round_ratio s a b\<close> rounds the rational \<open>a / b\<close> to the nearest
  binary64 number, ties to the even significand: 53 bits at the exponent of the value,
  fewer below \<open>2 ^ (- 1022)\<close> where the spacing stays \<open>2 ^ (- 1074)\<close>, and infinity from
  \<open>2 ^ 1024\<close> on. Every operation of binary64 is the exact operation followed by this
  rounding.
\<close>

datatype pyfloat = Fin bool nat int | FInf bool | FNaN

function bit_length :: "nat \<Rightarrow> nat" where
  "bit_length n = (if n = 0 then 0 else Suc (bit_length (n div 2)))"
  by pat_completeness auto
termination by (relation "measure id") auto

declare bit_length.simps [simp del]

definition round_div :: "nat \<Rightarrow> nat \<Rightarrow> nat" where
  "round_div n d =
     (let k = n div d; r = n mod d
      in if 2 * r < d then k else if d < 2 * r then k + 1 else if even k then k else k + 1)"

definition scale2 :: "nat \<Rightarrow> int \<Rightarrow> nat" where
  "scale2 n k = (if 0 \<le> k then n * 2 ^ nat k else n)"

definition round_ratio :: "bool \<Rightarrow> nat \<Rightarrow> nat \<Rightarrow> pyfloat" where
  "round_ratio s a b =
     (if a = 0 then Fin s 0 0
      else
        let e0 = int (bit_length a) - int (bit_length b);
            e = (if scale2 b e0 \<le> scale2 a (- e0) then e0 else e0 - 1);
            q = max (e - 52) (- 1074);
            m = round_div (scale2 a (- q)) (scale2 b q)
        in if 2 ^ 1024 \<le> scale2 m q then FInf s else Fin s m q)"

text \<open>
  The conversion of an integer operand, \<^verbatim>\<open>float.__sub__\<close>, \<^verbatim>\<open>float.__mul__\<close>,
  \<^verbatim>\<open>int(x)\<close> (towards zero) and \<^verbatim>\<open>round(x)\<close> (to the nearest integer, ties to even).
\<close>

definition float_of_int :: "int \<Rightarrow> error + pyfloat" where
  "float_of_int i =
     (case round_ratio (i < 0) (nat \<bar>i\<bar>) 1 of
        FInf s \<Rightarrow> Inl OverflowError
      | x \<Rightarrow> Inr x)"

definition float_sub :: "pyfloat \<Rightarrow> pyfloat \<Rightarrow> pyfloat" where
  "float_sub x y =
     (case (x, y) of
        (Fin s1 m1 q1, Fin s2 m2 q2) \<Rightarrow>
          (let q = min q1 q2;
               n1 = (if s1 then - 1 else 1) * int (scale2 m1 (q1 - q));
               n2 = (if s2 then - 1 else 1) * int (scale2 m2 (q2 - q));
               d = n1 - n2
           in if d = 0 then Fin (s1 \<and> \<not> s2 \<and> m1 = 0 \<and> m2 = 0) 0 0
              else round_ratio (d < 0) (scale2 (nat \<bar>d\<bar>) q) (scale2 1 (- q)))
      | (Fin s1 m1 q1, FInf s2) \<Rightarrow> FInf (\<not> s2)
      | (FInf s1, Fin s2 m2 q2) \<Rightarrow> FInf s1
      | (FInf s1, FInf s2) \<Rightarrow> if s1 = s2 then FNaN else FInf s1
      | _ \<Rightarrow> FNaN)"

definition float_mul :: "pyfloat \<Rightarrow> pyfloat \<Rightarrow> pyfloat" where
  "float_mul x y =
     (case (x, y) of
        (Fin s1 m1 q1, Fin s2 m2 q2) \<Rightarrow>
          (if m1 * m2 = 0 then Fin (s1 \<noteq> s2) 0 0
           else round_ratio (s1 \<noteq> s2) (scale2 (m1 * m2) (q1 + q2)) (scale2 1 (- (q1 + q2))))
      | (Fin s1 m1 q1, FInf s2) \<Rightarrow> if m1 = 0 then FNaN else FInf (s1 \<noteq> s2)
      | (FInf s1, Fin s2 m2 q2) \<Rightarrow> if m2 = 0 then FNaN else FInf (s1 \<noteq> s2)
      | (FInf s1, FInf s2) \<Rightarrow> FInf (s1 \<noteq> s2)
      | _ \<Rightarrow> FNaN)"

definition float_int :: "pyfloat \<Rightarrow> error + int" where
  "float_int x =
     (case x of
        Fin s m q \<Rightarrow>
          Inr ((if s then - 1 else 1) * int (if 0 \<le> q then m * 2 ^ nat q else m div 2 ^ nat (- q)))
      | FInf s \<Rightarrow> Inl OverflowError
      | FNaN \<Rightarrow> Inl (ValueError ''cannot convert float NaN to integer''))"

definition float_round :: "pyfloat \<Rightarrow> error + int" where
  "float_round x =
     (case x of
        Fin s m q \<Rightarrow>
          Inr ((if s then - 1 else 1)
               * int (if 0 \<le> q then m * 2 ^ nat q else round_div m (2 ^ nat (- q))))
      | FInf s \<Rightarrow> Inl OverflowError
      | FNaN \<Rightarrow> Inl (ValueError ''cannot convert float NaN to integer''))"

text \<open>
  \<^verbatim>\<open>float(s)\<close> for a string: white space dropped, a sign, then \<^verbatim>\<open>inf\<close>, \<^verbatim>\<open>infinity\<close> or
  \<^verbatim>\<open>nan\<close> in any case, or digits with an optional fraction and an optional exponent, at
  least one digit before or after the point; the decimal value is rounded once.
\<close>

definition opt_digits :: "string \<Rightarrow> (nat \<times> nat \<times> string) option" where
  "opt_digits s =
     (case s of
        [] \<Rightarrow> Some (0, 0, [])
      | c # r \<Rightarrow> if is_digit c then take_digits s else Some (0, 0, s))"

definition take_exponent :: "string \<Rightarrow> (int \<times> string) option" where
  "take_exponent s =
     (case s of
        [] \<Rightarrow> Some (0, [])
      | c # r \<Rightarrow>
          if c = CHR ''e'' \<or> c = CHR ''E''
          then (case take_sign r of
                  (neg, body) \<Rightarrow>
                    (case take_digits body of
                       Some (v, n, rest) \<Rightarrow> Some (if neg then - int v else int v, rest)
                     | None \<Rightarrow> None))
          else Some (0, s))"

definition py_float :: "string \<Rightarrow> error + pyfloat" where
  "py_float s =
     (case take_sign (strip_number s) of
        (neg, body) \<Rightarrow>
          if lower body = ''inf'' \<or> lower body = ''infinity'' then Inr (FInf neg)
          else if lower body = ''nan'' then Inr FNaN
          else
            (case opt_digits body of
               None \<Rightarrow> Inl (ValueError ''could not convert string to float'')
             | Some (ip, ni, r1) \<Rightarrow>
                 (case (case r1 of
                          [] \<Rightarrow> Some (0, 0, [])
                        | c # r \<Rightarrow> if c = CHR ''.'' then opt_digits r else Some (0, 0, r1)) of
                    None \<Rightarrow> Inl (ValueError ''could not convert string to float'')
                  | Some (fp, nf, r2) \<Rightarrow>
                      if ni + nf = 0 then Inl (ValueError ''could not convert string to float'')
                      else
                        (case take_exponent r2 of
                           Some (ex, []) \<Rightarrow>
                             (let d = ip * 10 ^ nf + fp; k = ex - int nf
                              in Inr (if 0 \<le> k then round_ratio neg (d * 10 ^ nat k) 1
                                      else round_ratio neg d (10 ^ nat (- k))))
                         | _ \<Rightarrow> Inl (ValueError ''could not convert string to float'')))))"

section \<open>The voucher range report (webapp.py)\<close>

text \<open>\<^verbatim>\<open>_format_indian_number\<close>, with the loop that cuts groups of two digits from the right.\<close>

function indian_groups :: "string \<Rightarrow> string list \<Rightarrow> string \<times> string list" where
  "indian_groups rest groups =
     (if 2 < length rest
      then indian_groups (take (length rest - 2) rest) (drop (length rest - 2) rest # groups)
      else (rest, groups))"
  by pat_completeness auto
termination by (relation "measure (\<lambda>(rest, groups). length rest)") auto

declare indian_groups.simps [simp del]

fun join :: "string \<Rightarrow> string list \<Rightarrow> string" where
  "join sep [] = []"
| "join sep [x] = x"
| "join sep (x # y # xs) = x @ sep @ join sep (y # xs)"

definition format_indian_number :: "int \<Rightarrow> string" where
  "format_indian_number n =
     (let s = str_nat (nat \<bar>n\<bar>)
      in if length s \<le> 3 then s
         else
           let last3 = drop (length s - 3) s;
               rest = take (length s - 3) s;
               (rest, groups) = indian_groups rest [];
               groups = (if rest \<noteq> [] then rest # groups else groups)
           in join '','' (groups @ [last3]))"

text \<open>
  The format \<^verbatim>\<open>{paise:02d}\<close>, and the amount text of one entry of \<^verbatim>\<open>voucher_range\<close>: a
  string that \<^verbatim>\<open>float\<close> refuses counts as \<open>0.0\<close>.
\<close>

definition format_02d :: "int \<Rightarrow> string" where
  "format_02d p = (if p < 0 then ''-'' @ str_nat (nat (- p)) else pad2 (nat p))"

definition amount_text :: "string \<Rightarrow> error + string" where
  "amount_text amount =
     (let amt = (case py_float amount of Inr x \<Rightarrow> x | Inl e \<Rightarrow> Fin False 0 0)
      in ebind (float_int amt) (\<lambda>rupees.
         ebind (float_of_int rupees) (\<lambda>frupees.
         ebind (float_round (float_mul (float_sub amt frupees) (Fin False 100 0))) (\<lambda>paise.
         Inr (format_indian_number rupees @ (if paise \<noteq> 0 then ''.'' @ format_02d paise else ''''))))))"

text \<open>The selection of \<^verbatim>\<open>voucher_range\<close>: the loop over the ledger, then the stable sort.\<close>

fun filter_rows :: "int \<Rightarrow> int \<Rightarrow> row list \<Rightarrow> (int \<times> row) list" where
  "filter_rows a b [] = []"
| "filter_rows a b (r # rs) =
     (let v = get_or r ''v_no'' ''V.No.'' ''''
      in case py_int (strip v) of
           Inl e \<Rightarrow> filter_rows a b rs
         | Inr v_int \<Rightarrow>
             if a \<le> v_int \<and> v_int \<le> b then (v_int, r) # filter_rows a b rs
             else filter_rows a b rs)"

definition filtered_vouchers :: "int \<Rightarrow> int \<Rightarrow> row list \<Rightarrow> (int \<times> row) list" where
  "filtered_vouchers a b rows =
     (let (a, b) = (if b < a then (b, a) else (a, b))
      in sort_key fst (filter_rows a b rows))"

definition entry :: "int \<times> row \<Rightarrow> error + (string \<times> string)" where
  "entry t =
     (case t of (vnum, r) \<Rightarrow>
        let name = strip (get_or r ''client_name'' ''Name'' '''');
            amount = get_or r ''final_amount'' ''Amount'' ''0''
        in ebind (amount_text amount) (\<lambda>amt_text.
           Inr (name @ '' ('' @ str_int vnum @ '')'', amt_text)))"

fun entries_of :: "(int \<times> row) list \<Rightarrow> error + (string \<times> string) list" where
  "entries_of [] = Inr []"
| "entries_of (t # ts) =
     ebind (entry t) (\<lambda>e. ebind (entries_of ts) (\<lambda>es. Inr (e # es)))"

definition rjust :: "nat \<Rightarrow> string \<Rightarrow> string" where
  "rjust w s = replicate (w - length s) CHR '' '' @ s"

definition ljust :: "nat \<Rightarrow> string \<Rightarrow> string" where
  "ljust w s = s @ replicate (w - length s) CHR '' ''"

definition max_list :: "nat list \<Rightarrow> nat" where
  "max_list xs = foldr max xs 0"

definition report_lines :: "(string \<times> string) list \<Rightarrow> string list" where
  "report_lines entries =
     (let name_width = max_list (map (\<lambda>(lbl, amt). length lbl) entries);
          amt_width = max_list (map (\<lambda>(lbl, amt). length amt) entries);
          idx_width = length (str_nat (length entries))
      in map (\<lambda>(i, (lbl, amt)).
               rjust idx_width (str_nat i) @ ''. '' @ ljust name_width lbl @ ''  =  ''
               @ rjust amt_width amt)
             (zip [1 ..< Suc (length entries)] entries))"

text \<open>
  The page \<^verbatim>\<open>voucher_range\<close> renders: an error message, the message of a caught exception,
  or a report text.
\<close>

datatype page = ErrorPage string | ErrorOf error | ReportPage string

definition read_history_rows :: "files \<Rightarrow> files \<times> row list" where
  "read_history_rows fs0 =
     (let fs = ensure_files_exist fs0
      in case HISTORY_CSV fs of None \<Rightarrow> (fs, []) | Some f \<Rightarrow> (fs, records f))"

definition voucher_range :: "files \<Rightarrow> string option \<Rightarrow> string option \<Rightarrow> files \<times> page" where
  "voucher_range fs0 from_no to_no =
     (let fs = ensure_files_exist fs0
      in if \<not> truthy from_no \<or> \<not> truthy to_no
         then (fs, ErrorPage ''Please enter both From and To voucher numbers'')
         else
           case (py_int (the from_no), py_int (the to_no)) of
             (Inr a, Inr b) \<Rightarrow>
               (case read_history_rows fs of (fs, rows) \<Rightarrow>
                  let filtered = filtered_vouchers a b rows
                  in if filtered = [] then (fs, ReportPage ''No vouchers found in this range'')
                     else
                       case entries_of filtered of
                         Inl e \<Rightarrow> (fs, ErrorOf e)
                       | Inr entries \<Rightarrow>
                           if entries = [] then (fs, ReportPage ''No vouchers found in this range'')
                           else
                             let lines = report_lines entries;
                                 (fs, removed) = deduplicate_history fs
                             in (fs, ReportPage (join [CHR 0x0A] lines)))
           | _ \<Rightarrow> (fs, ErrorPage ''Voucher numbers must be integers''))"


section \<open>Values and the rounding rule, as the specification words them\<close>



definition nearest_even :: "rat \<Rightarrow> int" where
  "nearest_even x =
     (let f = \<lfloor>x\<rfloor>; d = x - of_int f
      in if d < 1 / 2 then f else if 1 / 2 < d then f + 1 else if even f then f else f + 1)"


text \<open>The input of \<^verbatim>\<open>test_sample_case\<close> in tests/test\_core.py.\<close>

definition sample_input :: CalculationInput where
  "sample_input =
     \<lparr> CalculationInput.invoice_no = ''001'', client_no = 1, client_name = ''Client 01'',
       total_nuts = 5670, price_each_rupees = Dec False 22 0, date = (2025, 8, 10),
       labor_percent = Dec False 11 0 \<rparr>"


text \<open>\<open>d <= 0\<close> for a decimal that is not a NaN.\<close>

definition not_positive :: "decimal \<Rightarrow> bool" where
  "not_positive d = (case d of Dec s c e \<Rightarrow> s \<or> c = 0 | Infinity s \<Rightarrow> s | _ \<Rightarrow> False)"





text \<open>
  The positions of the first occurrences in a list of records: those whose key is not the
  key of an earlier record.
\<close>

definition first_positions :: "row list \<Rightarrow> nat set" where
  "first_positions rows = {i. i < length rows \<and> row_key (rows ! i) \<notin> row_key ` set (take i rows)}"

text \<open>The elements whose key is neither in \<open>seen\<close> nor the key of an earlier element.\<close>

fun keep_first :: "('a \<Rightarrow> 'k) \<Rightarrow> 'k set \<Rightarrow> 'a list \<Rightarrow> 'a list" where
  "keep_first f seen [] = []"
| "keep_first f seen (r # rs) =
     (if f r \<in> seen then keep_first f seen rs else r # keep_first f (insert (f r) seen) rs)"

text \<open>A record with a client name, a voucher id and a final amount.\<close>

definition example_row :: "string \<Rightarrow> string \<Rightarrow> string \<Rightarrow> row" where
  "example_row name vno amt = [''client_name'' \<mapsto> name, ''v_no'' \<mapsto> vno, ''final_amount'' \<mapsto> amt]"


text \<open>
  The empty data directory, the result of \<^verbatim>\<open>calculate\<close> for the sample input with the
  invoice id \<^verbatim>\<open>12/3\<close>, and the names without a separator and without a null character.
\<close>

definition fresh_files :: files where
  "fresh_files = \<lparr> HISTORY_CSV = None, SLIPS_DIR = Map.empty, RANGE_DIR = Map.empty \<rparr>"

definition separator_result :: CalculationResult where
  "separator_result =
     \<lparr> CalculationResult.invoice_no = ''12/3'', client_no = 1, client_name = ''Client 01'',
       date = (2025, 8, 10), total_nuts = 5670, price_each_rupees = Dec False 2200 (- 2),
       labor_percent = Dec False 11 0, waste_nuts = 125, remaining_nuts = 5545,
       gross_amount = Dec False 12199000 (- 2), tax_amount = Dec False 121990 (- 2),
       labor_charges = Dec False 62370 (- 2), final_amount = Dec False 12014640 (- 2) \<rparr>"

definition safe_name :: "string \<Rightarrow> bool" where
  "safe_name name = (CHR 0x00 \<notin> set name \<and> CHR ''/'' \<notin> set name)"

definition name_char :: "char \<Rightarrow> bool" where
  "name_char c = (c \<noteq> CHR 0x00 \<and> c \<noteq> CHR ''/'')"


section \<open>Properties of the decimal operations\<close>


lemma ndigits_less_pow: "n < 10 ^ ndigits n"
proof (induction n rule: ndigits.induct)
  case (1 n)
  show ?case
  proof (cases "n < 10")
    case True
    then show ?thesis by (subst ndigits.simps) simp
  next
    case False
    with 1 have "n div 10 < 10 ^ ndigits (n div 10)" by simp
    then have "n < 10 * 10 ^ ndigits (n div 10)" by simp
    with False show ?thesis by (subst ndigits.simps) simp
  qed
qed

lemma ndigits_le: "n < 10 ^ k \<Longrightarrow> 0 < k \<Longrightarrow> ndigits n \<le> k"
proof (induction n arbitrary: k rule: ndigits.induct)
  case (1 n)
  show ?case
  proof (cases "n < 10")
    case True
    with 1(3) show ?thesis by (subst ndigits.simps) simp
  next
    case False
    from 1(3) obtain j where k: "k = Suc j" by (cases k) auto
    with False 1(2) have "0 < j" by (cases j) auto
    moreover from 1(2) k have "n div 10 < 10 ^ j" by simp
    ultimately have "ndigits (n div 10) \<le> j" using 1(1) False by simp
    with False k show ?thesis by (subst ndigits.simps) simp
  qed
qed

lemma ndigits_gt: "10 ^ k \<le> n \<Longrightarrow> k < ndigits n"
proof (rule ccontr)
  assume "\<not> k < ndigits n"
  then have "ndigits n \<le> k" by simp
  then have "(10::nat) ^ ndigits n \<le> 10 ^ k" by (rule power_increasing) simp
  with ndigits_less_pow [of n] have "n < 10 ^ k" by (rule less_le_trans)
  moreover assume "10 ^ k \<le> n"
  ultimately show False by simp
qed


lemma floor_frac_cases:
  fixes x :: rat
  obtains f d where "x = of_int f + d" "0 \<le> d" "d < 1" "\<lfloor>x\<rfloor> = f"
proof
  show "x = of_int \<lfloor>x\<rfloor> + (x - of_int \<lfloor>x\<rfloor>)" by simp
  show "0 \<le> x - of_int \<lfloor>x\<rfloor>" by simp
  show "x - of_int \<lfloor>x\<rfloor> < 1" by linarith
  show "\<lfloor>x\<rfloor> = \<lfloor>x\<rfloor>" ..
qed



lemma nearest_even_split:
  assumes "x = of_int f + d" "0 \<le> d" "d < 1"
  shows "nearest_even x =
    (if d < 1 / 2 then f else if 1 / 2 < d then f + 1 else if even f then f else f + 1)"
proof -
  have "\<lfloor>x\<rfloor> = f" using assms by (intro floor_unique) auto
  then show ?thesis using assms(1) by (simp add: nearest_even_def Let_def)
qed


lemma int_round_half_even:
  "int (round_half_even c k) = nearest_even (of_nat c / 10 ^ k)"
proof -
  define q where "q = c div 10 ^ k"
  define r where "r = c mod 10 ^ k"
  have c: "c = q * 10 ^ k + r" unfolding q_def r_def by (rule div_mult_mod_eq [symmetric])
  have r: "r < 10 ^ k" unfolding r_def by simp
  have x: "(of_nat c :: rat) / 10 ^ k = of_int (int q) + of_nat r / 10 ^ k"
    by (simp add: c field_simps)
  have d0: "(0::rat) \<le> of_nat r / 10 ^ k" by simp
  have d1: "(of_nat r :: rat) / 10 ^ k < 1"
  proof -
    have "(of_nat r :: rat) < of_nat (10 ^ k)" using r by (simp only: of_nat_less_iff)
    then show ?thesis by simp
  qed
  have lt: "(of_nat r :: rat) / 10 ^ k < 1 / 2 \<longleftrightarrow> 2 * r < 10 ^ k"
  proof -
    have "(of_nat r :: rat) / 10 ^ k < 1 / 2 \<longleftrightarrow> (of_nat (2 * r) :: rat) < of_nat (10 ^ k)"
      by (simp add: field_simps)
    then show ?thesis by (simp only: of_nat_less_iff)
  qed
  have gt: "1 / 2 < (of_nat r :: rat) / 10 ^ k \<longleftrightarrow> 10 ^ k < 2 * r"
  proof -
    have "1 / 2 < (of_nat r :: rat) / 10 ^ k \<longleftrightarrow> (of_nat (10 ^ k) :: rat) < of_nat (2 * r)"
      by (simp add: field_simps)
    then show ?thesis by (simp only: of_nat_less_iff)
  qed
  have "nearest_even (of_nat c / 10 ^ k) =
    (if (of_nat r :: rat) / 10 ^ k < 1 / 2 then int q
     else if 1 / 2 < (of_nat r :: rat) / 10 ^ k then int q + 1
     else if even (int q) then int q else int q + 1)"
    using x d0 d1 by (rule nearest_even_split)
  also have "\<dots> = int (round_half_even c k)"
    unfolding lt gt round_half_even_def Let_def q_def [symmetric] r_def [symmetric]
    by (auto simp: not_less)
  finally show ?thesis by simp
qed



lemma round_half_even_le: "round_half_even c k \<le> c"
proof (cases k)
  case 0
  then show ?thesis by (simp add: round_half_even_def)
next
  case (Suc j)
  have q: "c div 10 ^ k \<le> c" by simp
  have "c mod 10 ^ k \<noteq> 0 \<Longrightarrow> c div 10 ^ k + 1 \<le> c"
  proof -
    assume r: "c mod 10 ^ k \<noteq> 0"
    have "c = c div 10 ^ k * 10 ^ k + c mod 10 ^ k" by (rule div_mult_mod_eq [symmetric])
    moreover have "c div 10 ^ k \<le> c div 10 ^ k * 10 ^ k" by simp
    ultimately show ?thesis using r by linarith
  qed
  moreover have "2 * (c mod 10 ^ k) = 10 ^ k \<Longrightarrow> c mod 10 ^ k \<noteq> 0"
    by (cases "c mod 10 ^ k = 0") simp_all
  moreover have "10 ^ k < 2 * (c mod 10 ^ k) \<Longrightarrow> c mod 10 ^ k \<noteq> 0"
    by (cases "c mod 10 ^ k = 0") simp_all
  ultimately show ?thesis using q unfolding round_half_even_def Let_def by auto
qed

lemma round_half_even_upper: "round_half_even c k \<le> c div 10 ^ k + 1"
  unfolding round_half_even_def Let_def by simp

lemma dec_fix_id:
  assumes "c < 10 ^ 28" "Etiny \<le> e" "e \<le> Etop"
  shows "dec_fix (Dec s c e) = Inr (Dec s c e)"
proof (cases "c = 0")
  case True
  with assms show ?thesis by (simp add: dec_fix_def Etiny_def Etop_def Emax_def Emin_def prec_def)
next
  case False
  have nd: "ndigits c \<le> 28" using assms(1) by (rule ndigits_le) simp
  have a: "\<not> Etop < int (ndigits c) + e - int prec"
    using nd assms(3) by (simp add: prec_def)
  have b: "\<not> e < max (int (ndigits c) + e - int prec) Etiny"
    using nd assms(2) by (simp add: prec_def)
  show ?thesis using False a b by (simp add: dec_fix_def Let_def)
qed

lemma dec_mul_exact:
  assumes "c1 * c2 < 10 ^ 28" "Etiny \<le> e1 + e2" "e1 + e2 \<le> Etop"
  shows "dec_mul (Dec s1 c1 e1) (Dec s2 c2 e2) = Inr (Dec (s1 \<noteq> s2) (c1 * c2) (e1 + e2))"
  using dec_fix_id [OF assms] by (simp add: dec_mul_def check_nans_def)

lemma quantize_round:
  assumes "c \<noteq> 0" "c < 10 ^ 28" "e < ex" "ex \<le> 0" "- 1000 \<le> e"
  shows "quantize (Dec s c e) ex = Inr (Dec s (round_half_even c (nat (ex - e))) ex)"
proof -
  define c' where "c' = round_half_even c (nat (ex - e))"
  have nd: "ndigits c \<le> 28" using assms(2) by (rule ndigits_le) simp
  have "c' \<le> c" unfolding c'_def by (rule round_half_even_le)
  with assms(2) have c'28: "c' < 10 ^ 28" by simp
  then have nd': "ndigits c' \<le> 28" by (rule ndigits_le) simp
  have fx: "dec_fix (Dec s c' ex) = Inr (Dec s c' ex)"
    using c'28 assms by (intro dec_fix_id) (simp_all add: Etiny_def Etop_def Emax_def Emin_def prec_def)
  have rs: "rescale (Dec s c e) ex = Dec s c' ex"
    using assms by (simp add: rescale_def c'_def)
  show ?thesis
    using assms nd nd' fx rs unfolding c'_def [symmetric]
    by (simp add: quantize_def adjusted_def Etiny_def Etop_def Emax_def Emin_def prec_def)
qed




subsection \<open>The operations where nothing is rounded away\<close>











lemma signed_coeff_mult: "signed_coeff s (c * k) = signed_coeff s c * int k"
  by (simp add: signed_coeff_def)








lemma round_waste_exact:
  assumes n: "0 < n" "22 * n < 10 ^ 28"
  shows "round_waste_to_nearest_integer_half_even n = Inr (nearest_even (of_int n * 22 / 1000))"
proof -
  define c where "c = nat n * 22"
  have c0: "c \<noteq> 0" using n(1) by (simp add: c_def)
  have "int c < 10 ^ 28" using n by (simp add: c_def)
  then have c28: "c < 10 ^ 28" by (metis of_nat_less_iff of_nat_numeral of_nat_power)
  have mul: "dec_mul (Decimal n) (Dec False 22 (- 3)) = Inr (Dec False c (- 3))"
    using n(1) c28 unfolding Decimal_def c_def
    by (subst dec_mul_exact) (simp_all add: Etiny_def Etop_def Emax_def Emin_def prec_def)
  have q: "quantize (Dec False c (- 3)) 0 = Inr (Dec False (round_half_even c 3) 0)"
    using quantize_round [OF c0 c28, of "- 3" 0 False] by simp
  have "of_nat c / 10 ^ 3 = (of_int n * 22 / 1000 :: rat)"
    using n(1) by (simp add: c_def)
  then have "int (round_half_even c 3) = nearest_even (of_int n * 22 / 1000)"
    using int_round_half_even [of c 3] by simp
  then show ?thesis
    unfolding round_waste_to_nearest_integer_half_even_def
    by (simp add: mul q ebind_def dec_int_def signed_coeff_def)
qed


subsection \<open>The result of calculate on inputs of moderate size\<close>










subsection \<open>Errors, validation and the packaged result\<close>


























subsection \<open>The calculation on valid inputs of moderate size\<close>









section \<open>The claims about the calculation engine\<close>

lemmas dec_eval =
  ebind_def round_waste_to_nearest_integer_half_even_def dec_mul_def
  check_nans_def Decimal_def dec_fix_def prec_def Etop_def Etiny_def Emax_def Emin_def
  quantize_def quantize_money_def adjusted_def rescale_def dec_int_def signed_coeff_def dec_le_def
  dec_truediv_def dec_sub_def dec_add_def copy_negate_def normalize_ops_def round_half_even_def
  Let_def ndigits.simps strip_zeros.simps

text \<open>
  C1, as amended. For every positive total unit count \<open>n\<close> whose product with 22 still
  fits the 28 digits of the decimal context (\<open>22 * n < 10 ^ 28\<close>), the wastage computed by
  \<^verbatim>\<open>_round_waste_to_nearest_integer_half_even\<close> is \<open>n * 0.022\<close>, taken exactly, rounded
  to the nearest integer with ties going to the even neighbour: a raw 2.5 rounds to 2 and
  a raw 3.5 to 4, and the exact midpoint 16.5 reached at \<open>n = 750\<close> gives 16, not 17.
\<close>

theorem waste_is_nearest_even:
  "(0 < n \<and> 22 * n < 10 ^ 28 \<longrightarrow>
      round_waste_to_nearest_integer_half_even n = Inr (nearest_even (of_int n * 22 / 1000)))
   \<and> nearest_even (5 / 2) = 2 \<and> nearest_even (7 / 2) = 4
   \<and> round_waste_to_nearest_integer_half_even 750 = Inr 16"
proof -
  have main: "round_waste_to_nearest_integer_half_even n = Inr (nearest_even (of_int n * 22 / 1000))"
    if "0 < n" "22 * n < 10 ^ 28"
    using that by (rule round_waste_exact)
  have a: "nearest_even (5 / 2) = 2"
    using nearest_even_split [of "5 / 2" 2 "1 / 2"] by simp
  have b: "nearest_even (7 / 2) = 4"
    using nearest_even_split [of "7 / 2" 3 "1 / 2"] by simp
  have c: "round_waste_to_nearest_integer_half_even 750 = Inr 16"
    by (simp add: dec_eval)
  from main a b c show ?thesis by blast
qed

theorem waste_is_nearest_even_witness:
  "(0::int) < 250 \<and> 22 * (250::int) < 10 ^ 28
   \<and> round_waste_to_nearest_integer_half_even 250 = Inr 6
   \<and> nearest_even (of_int 250 * 22 / 1000) = 6"
proof -
  have h: "(0::int) < 250 \<and> 22 * (250::int) < 10 ^ 28" by simp
  have v: "nearest_even (of_int 250 * 22 / 1000) = 6"
    using nearest_even_split [of "of_int 250 * 22 / 1000" 5 "1 / 2"] by simp
  from waste_is_nearest_even [of 250] h
  have "round_waste_to_nearest_integer_half_even 250 = Inr (nearest_even (of_int 250 * 22 / 1000))"
    by blast
  with h v show ?thesis by simp
qed

text \<open>
  C1 as stated fails beyond the precision: for \<open>n = 454545454545454545454546068\<close> the
  product \<open>n * 0.022 = 10000000000000000000000013.496\<close> has 29 digits, the
  multiplication rounds it to \<open>10000000000000000000000013.50\<close>, and the quantize step
  then rounds that midpoint up to the even 14, while the exact product rounds to 13.
\<close>

theorem waste_is_nearest_even_counterexample:
  "round_waste_to_nearest_integer_half_even 454545454545454545454546068
     = Inr 10000000000000000000000014
   \<and> nearest_even (of_int 454545454545454545454546068 * 22 / 1000)
     = 10000000000000000000000013"
proof -
  have "nearest_even (of_int 454545454545454545454546068 * 22 / 1000)
     = 10000000000000000000000013"
    using nearest_even_split [of "of_int 454545454545454545454546068 * 22 / 1000"
        10000000000000000000000013 "496 / 1000"]
    by simp
  moreover have "round_waste_to_nearest_integer_half_even 454545454545454545454546068
     = Inr 10000000000000000000000014"
    by (simp add: dec_eval)
  ultimately show ?thesis by simp
qed












section \<open>Deduplication of the ledger\<close>

lemma length_keep_first: "length (keep_first f seen rs) \<le> length rs"
proof (induction rs arbitrary: seen)
  case Nil
  show ?case by simp
next
  case (Cons r rs)
  have "length (keep_first f seen rs) \<le> length rs"
    "length (keep_first f (insert (f r) seen) rs) \<le> length rs"
    by (rule Cons.IH)+
  then show ?case by simp
qed

lemma dedup_loop_keep_first:
  "dedup_loop seen u n rs =
     (u @ keep_first row_key seen rs, n + (length rs - length (keep_first row_key seen rs)))"
proof (induction rs arbitrary: seen u n)
  case Nil
  show ?case by simp
next
  case (Cons r rs)
  have le: "length (keep_first row_key seen rs) \<le> length rs" by (rule length_keep_first)
  show ?case
  proof (cases "row_key r \<in> seen")
    case True
    then show ?thesis using le by (simp add: Cons.IH Let_def)
  next
    case False
    then show ?thesis by (simp add: Cons.IH Let_def)
  qed
qed

lemma keep_first_keys: "f ` set (keep_first f seen rs) = f ` set rs - seen"
proof (induction rs arbitrary: seen)
  case Nil
  show ?case by simp
next
  case (Cons r rs)
  show ?case
  proof (cases "f r \<in> seen")
    case True
    then show ?thesis by (auto simp: Cons.IH)
  next
    case False
    then show ?thesis by (auto simp: Cons.IH)
  qed
qed

lemma keep_first_distinct: "distinct (map f (keep_first f seen rs))"
proof (induction rs arbitrary: seen)
  case Nil
  show ?case by simp
next
  case (Cons r rs)
  have "f r \<notin> f ` set (keep_first f (insert (f r) seen) rs)"
    unfolding keep_first_keys by simp
  then show ?case by (simp add: Cons.IH)
qed

lemma keep_first_subseq: "subseq (keep_first f seen rs) rs"
proof (induction rs arbitrary: seen)
  case Nil
  show ?case by simp
next
  case (Cons r rs)
  show ?case
  proof (cases "f r \<in> seen")
    case True
    then show ?thesis using Cons.IH [of seen] by (auto intro: list_emb.intros)
  next
    case False
    then show ?thesis using Cons.IH [of "insert (f r) seen"] by simp
  qed
qed

lemma nths_shift:
  "{j. Suc j \<in> {i. f ((r # rs) ! i) \<notin> seen \<union> f ` set (take i (r # rs))}}
     = {i. f (rs ! i) \<notin> insert (f r) seen \<union> f ` set (take i rs)}"
  by auto

lemma keep_first_nths:
  "keep_first f seen rs = nths rs {i. f (rs ! i) \<notin> seen \<union> f ` set (take i rs)}"
proof (induction rs arbitrary: seen)
  case Nil
  show ?case by simp
next
  case (Cons r rs)
  have zero: "0 \<in> {i. f ((r # rs) ! i) \<notin> seen \<union> f ` set (take i (r # rs))} \<longleftrightarrow> f r \<notin> seen"
    by simp
  have split: "nths (r # rs) {i. f ((r # rs) ! i) \<notin> seen \<union> f ` set (take i (r # rs))} =
      (if f r \<notin> seen then [r] else [])
      @ nths rs {i. f (rs ! i) \<notin> insert (f r) seen \<union> f ` set (take i rs)}"
    unfolding nths_Cons nths_shift zero ..
  show ?case
  proof (cases "f r \<in> seen")
    case True
    then have ins: "insert (f r) seen = seen" by auto
    show ?thesis unfolding split using True by (simp only: keep_first.simps if_True if_False
          not_True_eq_False append_Nil ins Cons.IH [of seen])
  next
    case False
    show ?thesis unfolding split using False by (simp only: keep_first.simps if_True if_False
          not_False_eq_True append_Cons append_Nil Cons.IH [of "insert (f r) seen"])
  qed
qed

lemma first_positions_nths:
  "nths rows (first_positions rows) = keep_first row_key {} rows"
proof -
  have "nths rows (first_positions rows)
      = nths rows {i. row_key (rows ! i) \<notin> {} \<union> row_key ` set (take i rows)}"
    unfolding first_positions_def nths_def
    by (rule arg_cong [where f = "map fst"], rule filter_cong) (auto simp: set_zip)
  then show ?thesis by (simp only: keep_first_nths)
qed

lemma dedup_loop_first:
  "dedup_loop {} [] 0 rows =
     (nths rows (first_positions rows), length rows - length (nths rows (first_positions rows)))"
  by (simp add: dedup_loop_keep_first first_positions_nths)

lemma kept_distinct: "distinct (map row_key (nths rows (first_positions rows)))"
  unfolding first_positions_nths by (rule keep_first_distinct)

lemma kept_keys: "row_key ` set (nths rows (first_positions rows)) = row_key ` set rows"
  unfolding first_positions_nths keep_first_keys by simp

lemma kept_subseq: "subseq (nths rows (first_positions rows)) rows"
  unfolding first_positions_nths by (rule keep_first_subseq)

lemma setdefault_other: "k \<noteq> k' \<Longrightarrow> setdefault k v r k' = r k'"
  by (simp add: setdefault_def split: option.splits)

lemma get_or_setdefault:
  "k \<noteq> k1 \<Longrightarrow> k \<noteq> k2 \<Longrightarrow> get_or (setdefault k v r) k1 k2 d = get_or r k1 k2 d"
  by (simp add: get_or_def setdefault_other)

lemma row_key_setdefault: "row_key (setdefault ''party_name'' v r) = row_key r"
  by (simp add: row_key_def get_or_setdefault)

lemma first_positions_map:
  assumes "\<And>r. row_key (g r) = row_key r"
  shows "first_positions (map g rows) = first_positions rows"
proof -
  have "row_key ` set (take i (map g rows)) = row_key ` set (take i rows)" for i
    by (simp add: take_map image_image assms)
  then show ?thesis unfolding first_positions_def by (auto simp: assms)
qed

lemma writerow_setdefault: "writerow header (setdefault k [] r) = writerow header r"
  by (rule ext) (simp add: writerow_def setdefault_def split: option.splits)

lemma removed_count:
  "length rows - length (nths rows (first_positions rows)) =
     card {i. i < length rows \<and> row_key (rows ! i) \<in> row_key ` set (take i rows)}"
proof -
  let ?F = "{i. i < length rows \<and> row_key (rows ! i) \<notin> row_key ` set (take i rows)}"
  let ?D = "{i. i < length rows \<and> row_key (rows ! i) \<in> row_key ` set (take i rows)}"
  have l: "length (nths rows (first_positions rows)) = card ?F"
    unfolding length_nths first_positions_def by (rule arg_cong [where f = card]) auto
  have "?F \<union> ?D = {..<length rows}" "?F \<inter> ?D = {}" by auto
  then have "card ?F + card ?D = length rows"
    using card_Un_disjoint [of ?F ?D] by simp
  with l show ?thesis by simp
qed

lemma deduplicate_history_Some:
  assumes f: "HISTORY_CSV fs = Some f" and ne: "records f \<noteq> []"
  shows "deduplicate_history fs =
    (fs \<lparr> HISTORY_CSV := Some
          \<lparr> fieldnames = (if ''party_name'' \<notin> set (fieldnames f)
                          then fieldnames f @ [''party_name''] else fieldnames f),
            records = map (writerow (if ''party_name'' \<notin> set (fieldnames f)
                          then fieldnames f @ [''party_name''] else fieldnames f))
                        (nths (records f) (first_positions (records f))) \<rparr> \<rparr>,
     length (records f) - length (nths (records f) (first_positions (records f))))"
proof -
  have e: "ensure_files_exist fs = fs" using f by (simp add: ensure_files_exist_def)
  show ?thesis
  proof (cases "''party_name'' \<notin> set (fieldnames f)")
    case True
    have fp: "first_positions (map (setdefault ''party_name'' []) (records f)) = first_positions (records f)"
      by (rule first_positions_map) (rule row_key_setdefault)
    show ?thesis
      using True f ne
      by (simp add: deduplicate_history_def e dedup_loop_first fp nths_map writerow_setdefault
          del: set_append)
  next
    case False
    then show ?thesis using f ne
      by (simp add: deduplicate_history_def e dedup_loop_first)
  qed
qed

lemmas str_eval = strip_def isspace_def lower_def lower_char_def
lemmas key_eval = row_key_def get_or_def truthy_def example_row_def str_eval

lemma deduplicate_history_None:
  "HISTORY_CSV fs = None \<Longrightarrow>
     deduplicate_history fs =
       (fs \<lparr> HISTORY_CSV := Some \<lparr> fieldnames = history_headers, records = [] \<rparr> \<rparr>, 0)"
  by (simp add: deduplicate_history_def ensure_files_exist_def)

lemma deduplicate_history_empty:
  "HISTORY_CSV fs = Some f \<Longrightarrow> records f = [] \<Longrightarrow> deduplicate_history fs = (fs, 0)"
  by (simp add: deduplicate_history_def ensure_files_exist_def)

section \<open>The save operations\<close>

lemmas save_eval = str_nat.simps collapse_uu.simps strip_chars_def sanitize_filename_component_def
  range_report_path_def isalnum_def str_split_def digit_char_def str_int_def pad2_def
  strftime_Ymd_def shorten_client_name_def slip_filename_def Let_def

lemma slip_filename_separator: "slip_filename separator_result = ''VNo12/3_20250810_Client01.txt''"
  by (simp add: separator_result_def save_eval isspace_def)

lemma write_text_separator:
  "write_text dir ''VNo12/3_20250810_Client01.txt'' content = Inl FileNotFoundError
   \<or> write_text dir ''VNo12/3_20250810_Client01.txt'' content = Inl NotADirectoryError"
  by (simp add: write_text_def)

lemma path_exists_separator: "\<not> path_exists dir ''VNo12/3_20250810_Client01.txt''"
  by (simp add: path_exists_def)

lemma safe_name_iff: "safe_name s \<longleftrightarrow> (\<forall>c \<in> set s. name_char c)"
  by (auto simp: safe_name_def name_char_def)

lemma safe_name_append: "safe_name (a @ b) \<longleftrightarrow> safe_name a \<and> safe_name b"
  by (auto simp: safe_name_def)

lemma digit_char_safe: "d < 10 \<Longrightarrow> name_char (digit_char d)"
proof -
  assume "d < 10"
  then have "d \<in> {0, 1, 2, 3, 4, 5, 6, 7, 8, 9}" by auto
  then show ?thesis by (auto simp: digit_char_def name_char_def)
qed

lemma str_nat_safe: "safe_name (str_nat n)"
proof (induction n rule: str_nat.induct)
  case (1 n)
  show ?case
  proof (cases "n < 10")
    case True
    then show ?thesis using digit_char_safe [of n]
      by (subst str_nat.simps) (simp add: safe_name_iff)
  next
    case False
    have "n mod 10 < 10" by simp
    then have "name_char (digit_char (n mod 10))" by (rule digit_char_safe)
    then show ?thesis using False 1
      by (subst str_nat.simps) (simp add: safe_name_iff)
  qed
qed

lemma str_int_safe: "safe_name (str_int i)"
  using str_nat_safe by (simp add: str_int_def safe_name_append) (simp add: safe_name_def)

lemma pad2_safe: "safe_name (pad2 n)"
  using str_nat_safe by (simp add: pad2_def safe_name_append) (simp add: safe_name_def)

lemma strftime_safe: "safe_name (strftime_Ymd d)"
  by (cases d) (simp add: strftime_Ymd_def safe_name_append str_nat_safe pad2_safe)

lemma isalnum_safe: "isalnum c \<Longrightarrow> name_char c"
  by (auto simp: isalnum_def name_char_def Let_def)

lemma set_replace_uu: "set (replace_uu s) \<subseteq> set s"
  by (induction s rule: replace_uu.induct) auto

lemma set_collapse_uu: "set (collapse_uu s) \<subseteq> set s"
proof (induction s rule: collapse_uu.induct)
  case (1 s)
  show ?case
  proof (cases "has_uu s")
    case True
    with 1 have "set (collapse_uu (replace_uu s)) \<subseteq> set (replace_uu s)" by simp
    with set_replace_uu [of s] True show ?thesis by (subst collapse_uu.simps) auto
  next
    case False
    then show ?thesis by (subst collapse_uu.simps) simp
  qed
qed

lemma set_strip_chars: "set (strip_chars cs s) \<subseteq> set s"
proof -
  have "set (dropWhile P xs) \<subseteq> set xs" for P and xs :: string
    by (auto dest: set_dropWhileD)
  then show ?thesis unfolding strip_chars_def
    by (metis set_rev subset_trans)
qed

lemma sanitize_safe: "safe_name (sanitize_filename_component t)"
proof -
  let ?m = "map (\<lambda>ch. if isalnum ch \<or> ch \<in> {CHR ''-'', CHR ''_''} then ch else CHR ''_'') (strip t)"
  have m: "\<forall>c \<in> set ?m. name_char c"
    using isalnum_safe by (auto simp: name_char_def)
  have "set (strip_chars ''._'' (collapse_uu ?m)) \<subseteq> set ?m"
    using set_strip_chars set_collapse_uu by (rule subset_trans)
  with m have "\<forall>c \<in> set (strip_chars ''._'' (collapse_uu ?m)). name_char c" by blast
  then have "safe_name (strip_chars ''._'' (collapse_uu ?m))" by (simp only: safe_name_iff)
  moreover have "safe_name ''NA''" by (simp add: safe_name_def)
  ultimately show ?thesis by (simp add: sanitize_filename_component_def Let_def)
qed

lemma range_report_path_safe: "safe_name (range_report_path p a b d)"
proof -
  have "safe_name ''_V''" "safe_name ''-''" "safe_name ''_''" "safe_name ''.txt''"
    by (simp_all add: safe_name_def)
  then show ?thesis
    by (simp add: range_report_path_def Let_def safe_name_append strftime_safe str_int_safe
        sanitize_safe del: append.simps)
qed

lemma ensure_dirs [simp]:
  "SLIPS_DIR (ensure_files_exist fs) = SLIPS_DIR fs"
  "RANGE_DIR (ensure_files_exist fs) = RANGE_DIR fs"
  by (simp_all add: ensure_files_exist_def split: option.splits)

lemma ensure_idem: "ensure_files_exist (ensure_files_exist fs) = ensure_files_exist fs"
  by (simp add: ensure_files_exist_def split: option.splits)

lemma ensure_update_range:
  "ensure_files_exist (fs \<lparr> RANGE_DIR := d \<rparr>) = (ensure_files_exist fs) \<lparr> RANGE_DIR := d \<rparr>"
  by (simp add: ensure_files_exist_def split: option.splits)

lemma ensure_update_slips:
  "ensure_files_exist (fs \<lparr> SLIPS_DIR := d \<rparr>) = (ensure_files_exist fs) \<lparr> SLIPS_DIR := d \<rparr>"
  by (simp add: ensure_files_exist_def split: option.splits)

lemma save_range_report_cases:
  "save_range_report_if_new fs p a b t d now =
     (if RANGE_DIR fs (range_report_path p a b d) \<noteq> None
      then Inr (ensure_files_exist fs, range_report_path p a b d, False)
      else Inr ((ensure_files_exist fs)
                  \<lparr> RANGE_DIR := (RANGE_DIR fs)(range_report_path p a b d \<mapsto>
                       ''Party: '' @ p @ [CHR 0x0A]
                       @ ''Range: '' @ str_int a @ ''..'' @ str_int b @ [CHR 0x0A]
                       @ ''Saved At (UTC): '' @ now @ [CHR 0x0A, CHR 0x0A] @ t) \<rparr>,
                range_report_path p a b d, True))"
  using range_report_path_safe [of p a b d]
  by (simp add: save_range_report_if_new_def Let_def path_exists_def write_text_def ebind_def
      safe_name_def del: append.simps)

lemma save_slip_cases:
  "safe_name (slip_filename r) \<Longrightarrow>
   save_slip_text_if_new fs r c =
     (if SLIPS_DIR fs (slip_filename r) \<noteq> None
      then Inr (ensure_files_exist fs, slip_filename r, False)
      else Inr ((ensure_files_exist fs) \<lparr> SLIPS_DIR := (SLIPS_DIR fs)(slip_filename r \<mapsto> c) \<rparr>,
                slip_filename r, True))"
  by (simp add: save_slip_text_if_new_def Let_def path_exists_def write_text_def ebind_def
      safe_name_def)

lemma save_range_report_again:
  assumes "save_range_report_if_new fs p a b t d now = Inr (fs', path, created)"
  shows "path = range_report_path p a b d
    \<and> save_range_report_if_new fs' p a b t' d now' = Inr (fs', path, False)"
proof (cases "RANGE_DIR fs (range_report_path p a b d) \<noteq> None")
  case True
  with assms have fs': "fs' = ensure_files_exist fs" and path: "path = range_report_path p a b d"
    by (auto simp add: save_range_report_cases)
  have "RANGE_DIR fs' (range_report_path p a b d) \<noteq> None" using True by (simp add: fs')
  then show ?thesis
    by (simp add: save_range_report_cases [of fs'] path) (simp add: fs' ensure_idem)
next
  case False
  with assms have fs': "fs' = (ensure_files_exist fs)
                  \<lparr> RANGE_DIR := (RANGE_DIR fs)(range_report_path p a b d \<mapsto>
                       ''Party: '' @ p @ [CHR 0x0A]
                       @ ''Range: '' @ str_int a @ ''..'' @ str_int b @ [CHR 0x0A]
                       @ ''Saved At (UTC): '' @ now @ [CHR 0x0A, CHR 0x0A] @ t) \<rparr>"
    and path: "path = range_report_path p a b d"
    by (auto simp add: save_range_report_cases simp del: append.simps)
  have "RANGE_DIR fs' (range_report_path p a b d) \<noteq> None" by (simp add: fs')
  then show ?thesis
    by (simp add: save_range_report_cases [of fs'] path)
       (simp add: fs' ensure_update_range ensure_idem)
qed

lemma save_slip_again:
  assumes s: "safe_name (slip_filename r)"
    and "save_slip_text_if_new fs r c = Inr (fs', path, created)"
  shows "path = slip_filename r \<and> save_slip_text_if_new fs' r c' = Inr (fs', path, False)"
proof (cases "SLIPS_DIR fs (slip_filename r) \<noteq> None")
  case True
  with assms have fs': "fs' = ensure_files_exist fs" and path: "path = slip_filename r"
    by (auto simp add: save_slip_cases)
  have "SLIPS_DIR fs' (slip_filename r) \<noteq> None" using True by (simp add: fs')
  then show ?thesis
    by (simp add: save_slip_cases [OF s, of fs'] path) (simp add: fs' ensure_idem)
next
  case False
  with assms have fs': "fs' = (ensure_files_exist fs)
         \<lparr> SLIPS_DIR := (SLIPS_DIR fs)(slip_filename r \<mapsto> c) \<rparr>"
    and path: "path = slip_filename r"
    by (auto simp add: save_slip_cases)
  have "SLIPS_DIR fs' (slip_filename r) \<noteq> None" by (simp add: fs')
  then show ?thesis
    by (simp add: save_slip_cases [OF s, of fs'] path)
       (simp add: fs' ensure_update_slips ensure_idem)
qed

section \<open>The claims about the ledger\<close>

text \<open>
  C4. For every sequence of ledger records, the loop of \<^verbatim>\<open>deduplicate_history\<close> keeps exactly
  the records at the first positions of their keys (client name lower-cased and trimmed,
  voucher id as trimmed text, final amount as trimmed text), in ledger order, and counts
  the dropped records, which are those whose key is the key of an earlier record: the kept
  list is a subsequence of the ledger, its keys are distinct, and every key of the ledger
  is the key of a kept record. \<^verbatim>\<open>deduplicate_history\<close> creates an absent ledger with no
  records and returns 0, leaves a ledger without records as it is and returns 0, and
  otherwise writes the kept records, in the columns of the header (with the column
  \<^verbatim>\<open>party_name\<close> added if it was missing), and returns the count of the dropped ones. The
  amounts \<^verbatim>\<open>100.0\<close> and \<^verbatim>\<open>100.00\<close> give distinct keys and both records are kept; of two
  records with the same key and a third with another voucher id, the first and the third
  are kept and 1 is returned.
\<close>

theorem deduplicate_keeps_first:
  "dedup_loop {} [] 0 rows =
     (nths rows (first_positions rows),
      card {i. i < length rows \<and> row_key (rows ! i) \<in> row_key ` set (take i rows)})
   \<and> subseq (nths rows (first_positions rows)) rows
   \<and> distinct (map row_key (nths rows (first_positions rows)))
   \<and> row_key ` set (nths rows (first_positions rows)) = row_key ` set rows
   \<and> (HISTORY_CSV fs = None \<longrightarrow>
        deduplicate_history fs =
          (fs \<lparr> HISTORY_CSV := Some \<lparr> fieldnames = history_headers, records = [] \<rparr> \<rparr>, 0))
   \<and> (HISTORY_CSV fs = Some f \<and> records f = [] \<longrightarrow> deduplicate_history fs = (fs, 0))
   \<and> (HISTORY_CSV fs = Some f \<and> records f \<noteq> [] \<longrightarrow>
        (\<exists>header.
           header = (if ''party_name'' \<notin> set (fieldnames f)
                     then fieldnames f @ [''party_name''] else fieldnames f)
           \<and> deduplicate_history fs =
             (fs \<lparr> HISTORY_CSV := Some
                   \<lparr> fieldnames = header,
                     records = map (writerow header)
                                 (nths (records f) (first_positions (records f))) \<rparr> \<rparr>,
              card {i. i < length (records f)
                       \<and> row_key (records f ! i) \<in> row_key ` set (take i (records f))})))
   \<and> row_key (example_row ''Ravi'' ''7'' ''100.0'') \<noteq> row_key (example_row ''Ravi'' ''7'' ''100.00'')
   \<and> dedup_loop {} [] 0 [example_row ''Ravi'' ''7'' ''100.0'', example_row ''Ravi'' ''7'' ''100.00'']
       = ([example_row ''Ravi'' ''7'' ''100.0'', example_row ''Ravi'' ''7'' ''100.00''], 0)
   \<and> dedup_loop {} [] 0
         [example_row ''Ravi'' ''7'' ''100.00'', example_row '' RAVI '' ''7 '' ''100.00'',
          example_row ''Ravi'' ''8'' ''100.00'']
       = ([example_row ''Ravi'' ''7'' ''100.00'', example_row ''Ravi'' ''8'' ''100.00''], 1)"
proof -
  have a: "dedup_loop {} [] 0 rows =
     (nths rows (first_positions rows),
      card {i. i < length rows \<and> row_key (rows ! i) \<in> row_key ` set (take i rows)})"
    by (simp only: dedup_loop_first removed_count)
  have b: "subseq (nths rows (first_positions rows)) rows" by (rule kept_subseq)
  have c: "distinct (map row_key (nths rows (first_positions rows)))" by (rule kept_distinct)
  have d: "row_key ` set (nths rows (first_positions rows)) = row_key ` set rows"
    by (rule kept_keys)
  have e: "deduplicate_history fs =
          (fs \<lparr> HISTORY_CSV := Some \<lparr> fieldnames = history_headers, records = [] \<rparr> \<rparr>, 0)"
    if "HISTORY_CSV fs = None" using that by (rule deduplicate_history_None)
  have f: "deduplicate_history fs = (fs, 0)" if "HISTORY_CSV fs = Some f \<and> records f = []"
    using that by (simp add: deduplicate_history_empty)
  have g: "\<exists>header.
           header = (if ''party_name'' \<notin> set (fieldnames f)
                     then fieldnames f @ [''party_name''] else fieldnames f)
           \<and> deduplicate_history fs =
             (fs \<lparr> HISTORY_CSV := Some
                   \<lparr> fieldnames = header,
                     records = map (writerow header)
                                 (nths (records f) (first_positions (records f))) \<rparr> \<rparr>,
              card {i. i < length (records f)
                       \<and> row_key (records f ! i) \<in> row_key ` set (take i (records f))})"
    if "HISTORY_CSV fs = Some f \<and> records f \<noteq> []"
    using deduplicate_history_Some [of fs f] that by (simp only: removed_count simp_thms)
  have h: "row_key (example_row ''Ravi'' ''7'' ''100.0'') \<noteq> row_key (example_row ''Ravi'' ''7'' ''100.00'')"
    by (simp add: key_eval)
  have k1: "row_key (example_row ''Ravi'' ''7'' ''100.0'') = (''ravi'', ''7'', ''100.0'')"
    and k2: "row_key (example_row ''Ravi'' ''7'' ''100.00'') = (''ravi'', ''7'', ''100.00'')"
    and k3: "row_key (example_row '' RAVI '' ''7 '' ''100.00'') = (''ravi'', ''7'', ''100.00'')"
    and k4: "row_key (example_row ''Ravi'' ''8'' ''100.00'') = (''ravi'', ''8'', ''100.00'')"
    by (simp_all add: key_eval)
  have i: "dedup_loop {} [] 0 [example_row ''Ravi'' ''7'' ''100.0'', example_row ''Ravi'' ''7'' ''100.00'']
       = ([example_row ''Ravi'' ''7'' ''100.0'', example_row ''Ravi'' ''7'' ''100.00''], 0)"
    by (simp add: k1 k2 Let_def)
  have j: "dedup_loop {} [] 0
         [example_row ''Ravi'' ''7'' ''100.00'', example_row '' RAVI '' ''7 '' ''100.00'',
          example_row ''Ravi'' ''8'' ''100.00'']
       = ([example_row ''Ravi'' ''7'' ''100.00'', example_row ''Ravi'' ''8'' ''100.00''], 1)"
    by (simp add: k2 k3 k4 Let_def)
  from a b c d e f g h i j show ?thesis by blast
qed

theorem deduplicate_keeps_first_witness:
  "HISTORY_CSV \<lparr> HISTORY_CSV = Some \<lparr> fieldnames = [''client_name'', ''v_no'', ''final_amount''],
                               records = [example_row ''Ravi'' ''7'' ''100.00'',
                                          example_row '' RAVI '' ''7 '' ''100.00'',
                                          example_row ''Ravi'' ''8'' ''100.00''] \<rparr>,
                 SLIPS_DIR = Map.empty, RANGE_DIR = Map.empty \<rparr>
     = Some \<lparr> fieldnames = [''client_name'', ''v_no'', ''final_amount''],
              records = [example_row ''Ravi'' ''7'' ''100.00'',
                         example_row '' RAVI '' ''7 '' ''100.00'',
                         example_row ''Ravi'' ''8'' ''100.00''] \<rparr>
   \<and> nths [example_row ''Ravi'' ''7'' ''100.00'', example_row '' RAVI '' ''7 '' ''100.00'',
           example_row ''Ravi'' ''8'' ''100.00'']
          (first_positions [example_row ''Ravi'' ''7'' ''100.00'',
             example_row '' RAVI '' ''7 '' ''100.00'', example_row ''Ravi'' ''8'' ''100.00''])
       = [example_row ''Ravi'' ''7'' ''100.00'', example_row ''Ravi'' ''8'' ''100.00'']
   \<and> snd (deduplicate_history
        \<lparr> HISTORY_CSV = Some \<lparr> fieldnames = [''client_name'', ''v_no'', ''final_amount''],
                               records = [example_row ''Ravi'' ''7'' ''100.00'',
                                          example_row '' RAVI '' ''7 '' ''100.00'',
                                          example_row ''Ravi'' ''8'' ''100.00''] \<rparr>,
          SLIPS_DIR = Map.empty, RANGE_DIR = Map.empty \<rparr>) = 1
   \<and> map (\<lambda>r. (r ''client_name'', r ''v_no'', r ''final_amount'', r ''party_name''))
        (records (the (HISTORY_CSV (fst (deduplicate_history
        \<lparr> HISTORY_CSV = Some \<lparr> fieldnames = [''client_name'', ''v_no'', ''final_amount''],
                               records = [example_row ''Ravi'' ''7'' ''100.00'',
                                          example_row '' RAVI '' ''7 '' ''100.00'',
                                          example_row ''Ravi'' ''8'' ''100.00''] \<rparr>,
          SLIPS_DIR = Map.empty, RANGE_DIR = Map.empty \<rparr>)))))
       = [(Some ''Ravi'', Some ''7'', Some ''100.00'', Some []),
          (Some ''Ravi'', Some ''8'', Some ''100.00'', Some [])]"
proof -
  define rows where "rows = [example_row ''Ravi'' ''7'' ''100.00'',
      example_row '' RAVI '' ''7 '' ''100.00'', example_row ''Ravi'' ''8'' ''100.00'']"
  define f where "f = \<lparr> fieldnames = [''client_name'', ''v_no'', ''final_amount''], records = rows \<rparr>"
  define fs where "fs = \<lparr> HISTORY_CSV = Some f, SLIPS_DIR = Map.empty, RANGE_DIR = Map.empty \<rparr>"
  note t = deduplicate_keeps_first [of rows fs f]
  have h: "HISTORY_CSV fs = Some f \<and> records f \<noteq> []" by (simp add: fs_def f_def rows_def)
  have l: "dedup_loop {} [] 0 rows =
      ([example_row ''Ravi'' ''7'' ''100.00'', example_row ''Ravi'' ''8'' ''100.00''], 1)"
    using t unfolding rows_def by blast
  have l2: "dedup_loop {} [] 0 rows =
     (nths rows (first_positions rows),
      card {i. i < length rows \<and> row_key (rows ! i) \<in> row_key ` set (take i rows)})"
    using t by blast
  from l l2 have n: "nths rows (first_positions rows)
      = [example_row ''Ravi'' ''7'' ''100.00'', example_row ''Ravi'' ''8'' ''100.00'']"
    and c: "card {i. i < length rows \<and> row_key (rows ! i) \<in> row_key ` set (take i rows)} = 1"
    by simp_all
  have rf: "records f = rows" by (simp add: f_def)
  from t h obtain header where
    hd: "header = (if ''party_name'' \<notin> set (fieldnames f)
                     then fieldnames f @ [''party_name''] else fieldnames f)"
    and d: "deduplicate_history fs =
             (fs \<lparr> HISTORY_CSV := Some
                   \<lparr> fieldnames = header,
                     records = map (writerow header)
                                 (nths (records f) (first_positions (records f))) \<rparr> \<rparr>,
              card {i. i < length (records f)
                       \<and> row_key (records f ! i) \<in> row_key ` set (take i (records f))})"
    by blast
  have hv: "header = [''client_name'', ''v_no'', ''final_amount'', ''party_name'']"
    unfolding hd by (simp add: f_def)
  have d': "deduplicate_history fs =
      (fs \<lparr> HISTORY_CSV := Some
          \<lparr> fieldnames = header,
            records = map (writerow header)
              [example_row ''Ravi'' ''7'' ''100.00'', example_row ''Ravi'' ''8'' ''100.00''] \<rparr> \<rparr>, 1)"
    using d unfolding rf n c .
  have s1: "snd (deduplicate_history fs) = 1" unfolding d' by simp
  have s2: "map (\<lambda>r. (r ''client_name'', r ''v_no'', r ''final_amount'', r ''party_name''))
        (records (the (HISTORY_CSV (fst (deduplicate_history fs)))))
       = [(Some ''Ravi'', Some ''7'', Some ''100.00'', Some []),
          (Some ''Ravi'', Some ''8'', Some ''100.00'', Some [])]"
    unfolding d' hv by (simp add: writerow_def example_row_def)
  have s0: "HISTORY_CSV fs = Some f" using h by simp
  from s0 n s1 s2 show ?thesis unfolding fs_def f_def rows_def by simp
qed

text \<open>
  C8, at the input where the code fails it. The sample input with the invoice id
  \<^verbatim>\<open>12/3\<close> passes \<^verbatim>\<open>calculate\<close>; the name of its slip, \<^verbatim>\<open>VNo12/3_20250810_Client01.txt\<close>,
  keeps the separator, so the save into the empty data directory raises
  \<^verbatim>\<open>FileNotFoundError\<close> and creates nothing, and in every state of the data directory the
  save raises \<^verbatim>\<open>FileNotFoundError\<close> or \<^verbatim>\<open>NotADirectoryError\<close>. The range report for the party
  \<^verbatim>\<open>12/3\<close> is named \<^verbatim>\<open>20250810_V1-5_12_3.txt\<close>, the separator replaced, and its save into the
  empty data directory creates exactly that file and reports success.
\<close>

theorem slip_save_fails_on_separator:
  "calculate (sample_input \<lparr> CalculationInput.invoice_no := ''12/3'' \<rparr>) = Inr separator_result
   \<and> slip_filename separator_result = ''VNo12/3_20250810_Client01.txt''
   \<and> save_slip_text_if_new fresh_files separator_result content = Inl FileNotFoundError
   \<and> (save_slip_text_if_new fs separator_result content = Inl FileNotFoundError
      \<or> save_slip_text_if_new fs separator_result content = Inl NotADirectoryError)
   \<and> range_report_path ''12/3'' 1 5 (2025, 8, 10) = ''20250810_V1-5_12_3.txt''
   \<and> (\<exists>fs'. save_range_report_if_new fresh_files ''12/3'' 1 5 report (2025, 8, 10) utcnow
            = Inr (fs', ''20250810_V1-5_12_3.txt'', True)
          \<and> dom (RANGE_DIR fs') = {''20250810_V1-5_12_3.txt''})"
proof -
  have a: "calculate (sample_input \<lparr> CalculationInput.invoice_no := ''12/3'' \<rparr>) = Inr separator_result"
    by (simp add: sample_input_def separator_result_def calculate_def dec_eval)
  note b = slip_filename_separator
  have c: "save_slip_text_if_new fresh_files separator_result content = Inl FileNotFoundError"
    by (simp add: save_slip_text_if_new_def b path_exists_def write_text_def ebind_def
        fresh_files_def ensure_files_exist_def)
  have d: "save_slip_text_if_new fs separator_result content = Inl FileNotFoundError
      \<or> save_slip_text_if_new fs separator_result content = Inl NotADirectoryError"
    using write_text_separator [of "SLIPS_DIR (ensure_files_exist fs)" content]
    by (auto simp add: save_slip_text_if_new_def b path_exists_separator ebind_def Let_def)
  have e: "range_report_path ''12/3'' 1 5 (2025, 8, 10) = ''20250810_V1-5_12_3.txt''"
    by (simp add: save_eval str_eval)
  have f: "\<exists>fs'. save_range_report_if_new fresh_files ''12/3'' 1 5 report (2025, 8, 10) utcnow
            = Inr (fs', ''20250810_V1-5_12_3.txt'', True)
          \<and> dom (RANGE_DIR fs') = {''20250810_V1-5_12_3.txt''}"
    by (simp add: save_range_report_if_new_def e path_exists_def write_text_def ebind_def
        fresh_files_def ensure_files_exist_def Let_def)
  from a b c d e f show ?thesis by blast
qed

section \<open>Further properties\<close>

text \<open>
  Saving is idempotent by name. \<^verbatim>\<open>save_range_report_if_new\<close> never raises: where a file of
  the report's name exists it changes no file and returns the name with \<^verbatim>\<open>False\<close>, otherwise
  it creates exactly that file, holding the header and the report text, and returns the
  name with \<^verbatim>\<open>True\<close>; a second save with the same party, window and date, whatever its text,
  then changes nothing and returns \<^verbatim>\<open>False\<close>. The same holds for \<^verbatim>\<open>save_slip_text_if_new\<close>
  whenever the name of the slip has no separator and no null character. Neither changes
  the other files of the two directories.
\<close>

theorem save_if_new_idempotent:
  "save_range_report_if_new fs p a b t d now =
     (if RANGE_DIR fs (range_report_path p a b d) \<noteq> None
      then Inr (ensure_files_exist fs, range_report_path p a b d, False)
      else Inr ((ensure_files_exist fs)
                  \<lparr> RANGE_DIR := (RANGE_DIR fs)(range_report_path p a b d \<mapsto>
                       ''Party: '' @ p @ [CHR 0x0A]
                       @ ''Range: '' @ str_int a @ ''..'' @ str_int b @ [CHR 0x0A]
                       @ ''Saved At (UTC): '' @ now @ [CHR 0x0A, CHR 0x0A] @ t) \<rparr>,
                range_report_path p a b d, True))
   \<and> (save_range_report_if_new fs p a b t d now = Inr (fs', path, created) \<longrightarrow>
        save_range_report_if_new fs' p a b t' d now' = Inr (fs', path, False))
   \<and> (safe_name (slip_filename r) \<longrightarrow>
        save_slip_text_if_new fs r c =
          (if SLIPS_DIR fs (slip_filename r) \<noteq> None
           then Inr (ensure_files_exist fs, slip_filename r, False)
           else Inr ((ensure_files_exist fs) \<lparr> SLIPS_DIR := (SLIPS_DIR fs)(slip_filename r \<mapsto> c) \<rparr>,
                     slip_filename r, True)))
   \<and> (safe_name (slip_filename r) \<and> save_slip_text_if_new fs r c = Inr (fs2, path2, created2) \<longrightarrow>
        save_slip_text_if_new fs2 r c' = Inr (fs2, path2, False))
   \<and> SLIPS_DIR (ensure_files_exist fs) = SLIPS_DIR fs
   \<and> RANGE_DIR (ensure_files_exist fs) = RANGE_DIR fs"
proof (intro conjI impI)
  show "save_range_report_if_new fs p a b t d now =
     (if RANGE_DIR fs (range_report_path p a b d) \<noteq> None
      then Inr (ensure_files_exist fs, range_report_path p a b d, False)
      else Inr ((ensure_files_exist fs)
                  \<lparr> RANGE_DIR := (RANGE_DIR fs)(range_report_path p a b d \<mapsto>
                       ''Party: '' @ p @ [CHR 0x0A]
                       @ ''Range: '' @ str_int a @ ''..'' @ str_int b @ [CHR 0x0A]
                       @ ''Saved At (UTC): '' @ now @ [CHR 0x0A, CHR 0x0A] @ t) \<rparr>,
                range_report_path p a b d, True))"
    by (rule save_range_report_cases)
next
  assume "save_range_report_if_new fs p a b t d now = Inr (fs', path, created)"
  from save_range_report_again [OF this]
  show "save_range_report_if_new fs' p a b t' d now' = Inr (fs', path, False)" by blast
next
  assume "safe_name (slip_filename r)"
  then show "save_slip_text_if_new fs r c =
          (if SLIPS_DIR fs (slip_filename r) \<noteq> None
           then Inr (ensure_files_exist fs, slip_filename r, False)
           else Inr ((ensure_files_exist fs) \<lparr> SLIPS_DIR := (SLIPS_DIR fs)(slip_filename r \<mapsto> c) \<rparr>,
                     slip_filename r, True))"
    by (rule save_slip_cases)
next
  assume "safe_name (slip_filename r) \<and> save_slip_text_if_new fs r c = Inr (fs2, path2, created2)"
  then have "safe_name (slip_filename r)" "save_slip_text_if_new fs r c = Inr (fs2, path2, created2)"
    by simp_all
  from save_slip_again [OF this]
  show "save_slip_text_if_new fs2 r c' = Inr (fs2, path2, False)" by blast
qed (rule ensure_dirs)+

theorem save_if_new_idempotent_witness:
  "safe_name (slip_filename (separator_result \<lparr> CalculationResult.invoice_no := ''001'' \<rparr>))
   \<and> slip_filename (separator_result \<lparr> CalculationResult.invoice_no := ''001'' \<rparr>)
       = ''VNo001_20250810_Client01.txt''
   \<and> (\<exists>fs'. save_slip_text_if_new fresh_files
              (separator_result \<lparr> CalculationResult.invoice_no := ''001'' \<rparr>) ''slip''
            = Inr (fs', ''VNo001_20250810_Client01.txt'', True)
          \<and> SLIPS_DIR fs' = [''VNo001_20250810_Client01.txt'' \<mapsto> ''slip'']
          \<and> save_slip_text_if_new fs'
              (separator_result \<lparr> CalculationResult.invoice_no := ''001'' \<rparr>) ''other''
            = Inr (fs', ''VNo001_20250810_Client01.txt'', False))"
proof -
  define r where "r = separator_result \<lparr> CalculationResult.invoice_no := ''001'' \<rparr>"
  have n: "slip_filename r = ''VNo001_20250810_Client01.txt''"
    by (simp add: r_def separator_result_def save_eval isspace_def)
  have s: "safe_name (slip_filename r)" unfolding n by (simp add: safe_name_def)
  define fs' where "fs' = (ensure_files_exist fresh_files)
      \<lparr> SLIPS_DIR := (SLIPS_DIR fresh_files)(slip_filename r \<mapsto> ''slip'') \<rparr>"
  note t = save_if_new_idempotent [of fresh_files _ _ _ _ _ _ _ _ _ _ _ r "''slip''" fs'
      "slip_filename r" True "''other''"]
  have fresh: "SLIPS_DIR fresh_files (slip_filename r) = None" by (simp add: fresh_files_def)
  from t s fresh have first: "save_slip_text_if_new fresh_files r ''slip'' = Inr (fs', slip_filename r, True)"
    unfolding fs'_def by simp
  with t s have second: "save_slip_text_if_new fs' r ''other'' = Inr (fs', slip_filename r, False)"
    by blast
  have d: "SLIPS_DIR fs' = [''VNo001_20250810_Client01.txt'' \<mapsto> ''slip'']"
    by (simp add: fs'_def fresh_files_def n)
  from s n first second d show ?thesis unfolding r_def by (simp only: simp_thms) blast
qed


end
